theory Spec2Isabelle
  imports Main
begin

section \<open>Shared vocabulary\<close>

text \<open>
  Every external collaborator (identity provider, record store, rate limiter, reasoning
  service, search service) is awaited inside the handler's outer \<^verbatim>\<open>try\<close>. The result of
  such a call is a settled promise: it is either rejected (the \<^verbatim>\<open>await\<close> throws) or
  fulfilled with a value.
\<close>

datatype 'a settled = Rejected | Fulfilled 'a

text \<open>
  JavaScript truthiness of a \<^verbatim>\<open>string | null | undefined\<close> value: \<^verbatim>\<open>null\<close>, \<^verbatim>\<open>undefined\<close>
  and the empty string are falsy.
\<close>

definition truthy :: "string option \<Rightarrow> bool" where
  "truthy v = (case v of None \<Rightarrow> False | Some s \<Rightarrow> s \<noteq> [])"

section \<open>History route: \<^verbatim>\<open>GET\<close>\<close>

text \<open>The \<^verbatim>\<open>Generation\<close> interface of the history route (a row of the record store).\<close>

record Generation =
  gen_id :: string
  inputText :: string
  gen_keywords :: "string list"
  gen_topic :: "string option"
  gifUrl :: string
  gifTitle :: string
  createdAt :: int
  gen_perspective :: "string option"
  generationGroupId :: "string option"

text \<open>One element of \<^verbatim>\<open>groupedArray\<close>.\<close>

record HistoryGroup =
  groupId :: string
  hg_inputText :: string
  hg_createdAt :: int
  gifs :: "Generation list"

text \<open>The \<^verbatim>\<open>pagination\<close> object. A field that is \<^verbatim>\<open>NaN\<close> or infinite serialises as \<^verbatim>\<open>null\<close>.\<close>

record Pagination =
  total :: nat
  page :: "int option"
  limit :: "int option"
  totalPages :: "int option"

datatype HistoryResponse =
    Unauthorized401
  | HistoryJson "HistoryGroup list" "Pagination option"
  | HistoryError500

text \<open>\<^verbatim>\<open>gen.generationGroupId || gen.id\<close>\<close>

definition groupKey :: "Generation \<Rightarrow> string" where
  "groupKey gen =
     (if truthy (generationGroupId gen) then the (generationGroupId gen) else gen_id gen)"

text \<open>
  The \<^verbatim>\<open>Map<string, Generation[]>\<close> keeps its keys in insertion order, so it is an
  association list; \<^verbatim>\<open>has\<close>, \<^verbatim>\<open>set\<close> of a fresh key and \<^verbatim>\<open>get(k).push\<close> are written out.
\<close>

type_synonym GroupMap = "(string \<times> Generation list) list"

definition map_has :: "GroupMap \<Rightarrow> string \<Rightarrow> bool" where
  "map_has grouped k = (k \<in> set (map fst grouped))"

definition map_set_empty :: "GroupMap \<Rightarrow> string \<Rightarrow> GroupMap" where
  "map_set_empty grouped k = grouped @ [(k, [])]"

definition map_push :: "GroupMap \<Rightarrow> string \<Rightarrow> Generation \<Rightarrow> GroupMap" where
  "map_push grouped k gen =
     map (\<lambda>(k', gs). if k' = k then (k', gs @ [gen]) else (k', gs)) grouped"

text \<open>The body of \<^verbatim>\<open>allGenerations.forEach\<close>.\<close>

definition group_step :: "GroupMap \<Rightarrow> Generation \<Rightarrow> GroupMap" where
  "group_step grouped gen =
     (let k = groupKey gen;
          grouped' = (if \<not> map_has grouped k then map_set_empty grouped k else grouped)
      in map_push grouped' k gen)"

definition group_all :: "Generation list \<Rightarrow> GroupMap" where
  "group_all allGenerations = foldl group_step [] allGenerations"

text \<open>
  \<^verbatim>\<open>order[a.perspective] ?? 999\<close> with \<^verbatim>\<open>order = { emotional: 0, literal: 1, sarcastic: 2 }\<close>.
  The lookup goes through the prototype of the object literal: for a perspective that is the
  name of a member every object inherits it yields that member, a function or an object,
  which \<^verbatim>\<open>??\<close> keeps. \<open>None\<close> stands for such a value; every other string, and \<^verbatim>\<open>null\<close>, is
  not found and gets 999.
\<close>

definition inherited_members :: "string list" where
  "inherited_members =
     [''constructor'', ''__defineGetter__'', ''__defineSetter__'', ''hasOwnProperty'',
      ''__lookupGetter__'', ''__lookupSetter__'', ''isPrototypeOf'', ''propertyIsEnumerable'',
      ''toString'', ''valueOf'', ''__proto__'', ''toLocaleString'']"

definition perspective_order :: "string option \<Rightarrow> int option" where
  "perspective_order p =
     (if p = Some ''emotional'' then Some 0
      else if p = Some ''literal'' then Some 1
      else if p = Some ''sarcastic'' then Some 2
      else (case p of
              None \<Rightarrow> Some 999
            | Some name \<Rightarrow> if name \<in> set inherited_members then None else Some 999))"

text \<open>
  The comparator \<^verbatim>\<open>(a, b) => aOrder - bOrder\<close>. The difference is \<^verbatim>\<open>NaN\<close> (\<open>None\<close>) as soon as
  one of the two values is not a number.
\<close>

definition compare_gifs :: "Generation \<Rightarrow> Generation \<Rightarrow> int option" where
  "compare_gifs a b =
     (case (perspective_order (gen_perspective a), perspective_order (gen_perspective b)) of
        (Some aOrder, Some bOrder) \<Rightarrow> Some (aOrder - bOrder)
      | _ \<Rightarrow> None)"

text \<open>\<^verbatim>\<open>Array.prototype.sort\<close> reads a comparison that is \<^verbatim>\<open>NaN\<close> as 0.\<close>

definition sort_compare :: "('a \<Rightarrow> 'a \<Rightarrow> int option) \<Rightarrow> 'a \<Rightarrow> 'a \<Rightarrow> int" where
  "sort_compare comparefn x y = (case comparefn x y of None \<Rightarrow> 0 | Some v \<Rightarrow> v)"

text \<open>
  What the engine does with the array. On an array of fewer than 64 elements V8 takes the run
  at the start of the array (non-descending, or strictly descending and then reversed) and
  inserts each remaining element into the sorted part at the place a binary search finds.
  Groups are short (a request writes at most three rows), so this procedure is written out
  for every length.
\<close>

fun run_extend :: "('a \<Rightarrow> 'a \<Rightarrow> int) \<Rightarrow> bool \<Rightarrow> 'a \<Rightarrow> 'a list \<Rightarrow> 'a list \<times> 'a list" where
  "run_extend c isDescending previous [] = ([], [])"
| "run_extend c isDescending previous (x # xs) =
     (if (c x previous < 0) = isDescending
      then (case run_extend c isDescending x xs of (run, rest) \<Rightarrow> (x # run, rest))
      else ([], x # xs))"

fun count_and_make_run :: "('a \<Rightarrow> 'a \<Rightarrow> int) \<Rightarrow> 'a list \<Rightarrow> 'a list \<times> 'a list" where
  "count_and_make_run c [] = ([], [])"
| "count_and_make_run c [x] = ([x], [])"
| "count_and_make_run c (x0 # x1 # xs) =
     (let isDescending = c x1 x0 < 0 in
      case run_extend c isDescending x1 xs of
        (run, rest) \<Rightarrow>
          (if isDescending then rev (x0 # x1 # run) else x0 # x1 # run, rest))"

function insertion_point :: "('a \<Rightarrow> 'a \<Rightarrow> int) \<Rightarrow> 'a \<Rightarrow> 'a list \<Rightarrow> nat \<Rightarrow> nat \<Rightarrow> nat" where
  "insertion_point c pivot sorted_part left right =
     (if left < right then
        (if c pivot (sorted_part ! (left + (right - left) div 2)) < 0
         then insertion_point c pivot sorted_part left (left + (right - left) div 2)
         else insertion_point c pivot sorted_part (left + (right - left) div 2 + 1) right)
      else left)"
  by pat_completeness auto
termination
  by (relation "measure (\<lambda>(c, pivot, sorted_part, left, right). right - left)") auto

declare insertion_point.simps [simp del]

definition binary_insert :: "('a \<Rightarrow> 'a \<Rightarrow> int) \<Rightarrow> 'a list \<Rightarrow> 'a \<Rightarrow> 'a list" where
  "binary_insert c sorted_part pivot =
     (let left = insertion_point c pivot sorted_part 0 (length sorted_part)
      in take left sorted_part @ pivot # drop left sorted_part)"

definition engine_sort :: "('a \<Rightarrow> 'a \<Rightarrow> int) \<Rightarrow> 'a list \<Rightarrow> 'a list" where
  "engine_sort c xs =
     (case count_and_make_run c xs of (run, rest) \<Rightarrow> foldl (binary_insert c) run rest)"

text \<open>The number that a comparison reads for a perspective whose looked-up value is a number.\<close>

definition order_number :: "string option \<Rightarrow> int" where
  "order_number p = (case perspective_order p of None \<Rightarrow> 0 | Some n \<Rightarrow> n)"

text \<open>
  \<^verbatim>\<open>gifs.sort((a, b) => aOrder - bOrder)\<close>. \<^verbatim>\<open>Array.prototype.sort\<close> must be stable and must sort
  by a comparator that is consistent, so when every looked-up value is a number the result is
  the stable sort by that number, whatever the engine does. When some looked-up value is not
  a number, comparisons with it are \<^verbatim>\<open>NaN\<close>, the language leaves the order to the engine, and
  the result is what the procedure above makes of it.
\<close>

definition sort_gifs :: "Generation list \<Rightarrow> Generation list" where
  "sort_gifs gs =
     (if list_all (\<lambda>g. perspective_order (gen_perspective g) \<noteq> None) gs
      then sort_key (\<lambda>g. order_number (gen_perspective g)) gs
      else engine_sort (sort_compare compare_gifs) gs)"

text \<open>
  One entry of \<^verbatim>\<open>groupedArray\<close>. \<^verbatim>\<open>gifs[0].inputText\<close> is read before the sort, and
  throws a \<^verbatim>\<open>TypeError\<close> on an empty group (\<open>None\<close> here).
\<close>

definition group_entry :: "string \<times> Generation list \<Rightarrow> HistoryGroup option" where
  "group_entry kv =
     (case snd kv of
        [] \<Rightarrow> None
      | g0 # _ \<Rightarrow> Some \<lparr> groupId = fst kv, hg_inputText = inputText g0,
                         hg_createdAt = createdAt g0, gifs = sort_gifs (snd kv) \<rparr>)"

fun those_entries :: "HistoryGroup option list \<Rightarrow> HistoryGroup list option" where
  "those_entries [] = Some []"
| "those_entries (None # _) = None"
| "those_entries (Some h # rest) =
     (case those_entries rest of None \<Rightarrow> None | Some hs \<Rightarrow> Some (h # hs))"

definition groupedArray :: "Generation list \<Rightarrow> HistoryGroup list option" where
  "groupedArray allGenerations = those_entries (map group_entry (group_all allGenerations))"

text \<open>
  \<^verbatim>\<open>Array.prototype.slice(start, end)\<close> on numbers that may be \<^verbatim>\<open>NaN\<close> (\<open>None\<close>):
  \<^verbatim>\<open>NaN\<close> counts as 0, a negative bound counts from the end, both are clamped.
\<close>

definition slice_bound :: "nat \<Rightarrow> int option \<Rightarrow> nat" where
  "slice_bound len b =
     (case b of
        None \<Rightarrow> 0
      | Some i \<Rightarrow> if i < 0 then nat (max (int len + i) 0) else nat (min i (int len)))"

definition js_slice :: "'a list \<Rightarrow> int option \<Rightarrow> int option \<Rightarrow> 'a list" where
  "js_slice xs start fin =
     (let k = slice_bound (length xs) start; f = slice_bound (length xs) fin
      in take (f - k) (drop k xs))"

definition num_mul :: "int option \<Rightarrow> int option \<Rightarrow> int option" where
  "num_mul a b = (case (a, b) of (Some x, Some y) \<Rightarrow> Some (x * y) | _ \<Rightarrow> None)"

definition num_add :: "int option \<Rightarrow> int option \<Rightarrow> int option" where
  "num_add a b = (case (a, b) of (Some x, Some y) \<Rightarrow> Some (x + y) | _ \<Rightarrow> None)"

text \<open>
  \<^verbatim>\<open>Math.ceil(groupedArray.length / limit)\<close>; division by \<^verbatim>\<open>NaN\<close> or by zero gives a value
  that serialises as \<^verbatim>\<open>null\<close>.
\<close>

definition total_pages :: "nat \<Rightarrow> int option \<Rightarrow> int option" where
  "total_pages n lim =
     (case lim of
        None \<Rightarrow> None
      | Some l \<Rightarrow> if l = 0 then None else Some (- ((- int n) div l)))"

text \<open>
  What the history route reads from outside: the identity, the profile row of that identity,
  the parsed \<^verbatim>\<open>page\<close> and \<^verbatim>\<open>limit\<close> numbers (\<open>None\<close> is \<^verbatim>\<open>NaN\<close>), and the rows owned by a
  profile, newest first.
\<close>

record HistoryEnv =
  h_auth :: "string option settled"
  h_findUnique :: "string \<Rightarrow> string option settled"
  h_page :: "int option"
  h_limit :: "int option"
  h_findMany :: "string \<Rightarrow> Generation list settled"

definition GET :: "HistoryEnv \<Rightarrow> HistoryResponse" where
  "GET e =
     (case h_auth e of
        Rejected \<Rightarrow> HistoryError500
      | Fulfilled userId \<Rightarrow>
          if \<not> truthy userId then Unauthorized401
          else
            (case h_findUnique e (the userId) of
               Rejected \<Rightarrow> HistoryError500
             | Fulfilled None \<Rightarrow> HistoryJson [] None
             | Fulfilled (Some user_id) \<Rightarrow>
                 (let skip = num_mul (num_add (h_page e) (Some (- 1))) (h_limit e) in
                  case h_findMany e user_id of
                    Rejected \<Rightarrow> HistoryError500
                  | Fulfilled allGenerations \<Rightarrow>
                      (case groupedArray allGenerations of
                         None \<Rightarrow> HistoryError500
                       | Some ga \<Rightarrow>
                           HistoryJson
                             (js_slice ga skip (num_add skip (h_limit e)))
                             (Some \<lparr> total = length ga, page = h_page e, limit = h_limit e,
                                     totalPages = total_pages (length ga) (h_limit e) \<rparr>)))))"

section \<open>Generation route: \<^verbatim>\<open>POST\<close>\<close>

subsection \<open>Data\<close>

text \<open>\<^verbatim>\<open>z.enum(["emotional", "literal", "sarcastic"])\<close>\<close>

datatype Perspective = emotional | literal | sarcastic

fun perspective_name :: "Perspective \<Rightarrow> string" where
  "perspective_name emotional = ''emotional''"
| "perspective_name literal = ''literal''"
| "perspective_name sarcastic = ''sarcastic''"

text \<open>One element of \<^verbatim>\<open>strategiesSchema.strategies\<close>.\<close>

record Strategy =
  strategy_keywords :: "string list"
  topic :: "string option"
  perspective :: Perspective
  reasoning :: string

text \<open>
  \<^verbatim>\<open>strategiesSchema\<close>: an array of length 3 whose elements carry 1 to 3 keywords. The schema
  asks neither for distinct perspectives nor for an order of the elements.
\<close>

definition strategiesSchema :: "Strategy list \<Rightarrow> bool" where
  "strategiesSchema ss =
     (length ss = 3 \<and> list_all (\<lambda>s. 1 \<le> length (strategy_keywords s) \<and> length (strategy_keywords s) \<le> 3) ss)"

text \<open>
  \<^verbatim>\<open>selectionSchema\<close>: \<^verbatim>\<open>selectedIndex\<close> is \<^verbatim>\<open>z.number().int().min(0)\<close>. The integer check of
  the validator accepts the safe integers only, those up to \<^verbatim>\<open>Number.MAX_SAFE_INTEGER\<close>,
  which is \<^verbatim>\<open>2 ** 53 - 1\<close>, in absolute value.
\<close>

definition MAX_SAFE_INTEGER :: int where
  "MAX_SAFE_INTEGER = 9007199254740991"

definition selectionSchema :: "int \<times> string \<Rightarrow> bool" where
  "selectionSchema sel = (0 \<le> fst sel \<and> fst sel \<le> MAX_SAFE_INTEGER)"

text \<open>The members of a search hit that the route reads; \<open>original_url\<close> is \<^verbatim>\<open>images.original.url\<close>.\<close>

record Gif =
  title :: string
  alt_text :: string
  original_url :: string

text \<open>What \<^verbatim>\<open>fetch\<close> of the search URL and \<^verbatim>\<open>response.json()\<close> give, as far as the route
  distinguishes: an exception, a status that is not ok, or a body whose \<^verbatim>\<open>data\<close> member may be
  absent.\<close>

datatype FetchResult = FetchThrows | NotOk nat | OkBody "Gif list option"

record SearchResult =
  sr_strategy :: Strategy
  sr_gifs :: "Gif list"
  sr_error :: "string option"

record Selection =
  sel_strategy :: Strategy
  selectedGif :: "Gif option"
  sel_reasoning :: string
  sel_error :: bool

text \<open>The answer of \<^verbatim>\<open>ratelimit.limit(userId)\<close>.\<close>

record RateLimitResult =
  success :: bool
  rr_limit :: int
  rr_remaining :: int
  rr_reset :: int

record UserProfile =
  email :: "string option"
  firstName :: "string option"
  lastName :: "string option"
  imageUrl :: "string option"

text \<open>The \<^verbatim>\<open>data\<close> argument of \<^verbatim>\<open>prisma.generation.create\<close>.\<close>

record GenerationData =
  d_userId :: string
  d_inputText :: string
  d_keywords :: "string list"
  d_topic :: "string option"
  d_reasoning :: string
  d_gifUrl :: string
  d_gifTitle :: string
  d_perspective :: string
  d_generationGroupId :: string

record GifResult =
  r_url :: string
  r_keywords :: "string list"
  r_topic :: "string option"
  r_reasoning :: string
  r_title :: string
  r_perspective :: Perspective

text \<open>\<open>reset\<close> stands for the ISO rendering of that instant.\<close>

record RateLimitInfo =
  remaining :: int
  info_limit :: int
  reset :: int

record ResponseData =
  results :: "GifResult list"
  totalFound :: nat
  requestedPerspectives :: nat
  rateLimit :: "RateLimitInfo option"

text \<open>
  The responses of the route (the rate-limit headers repeat the body and are left out).
  \<open>TooManyRequests429 limit reset\<close> is the body with \<^verbatim>\<open>remaining: 0\<close>; \<open>NoResponse\<close> is a
  handler that awaits a promise which never settles.
\<close>

datatype GenResponse =
    TooManyRequests429 int int
  | BadRequest400
  | ServerError500 string
  | NotFound404
  | Ok200 ResponseData
  | NoResponse

text \<open>The value of the \<^verbatim>\<open>text\<close> member of the parsed request body.\<close>

datatype JsValue = JsUndefined | JsNull | JsBoolean bool | JsNumber int | JsString string | JsObject

text \<open>The calls that leave the handler, in the order in which they are started.\<close>

datatype Call =
    Auth
  | RateLimit string
  | CurrentUser
  | UpsertUser string "UserProfile option"
  | ReadBody
  | DeriveStrategies string
  | GiphySearch string
  | SelectGif Strategy
  | FindUser string
  | CreateGeneration GenerationData

text \<open>
  The outside world of one request: what each collaborator answers, the clock, the random
  draw (\<open>math_random\<close> is \<^verbatim>\<open>Math.random().toString(36)\<close>), and the instants at which the
  concurrent branches of each \<^verbatim>\<open>Promise.all\<close> settle (by branch index).
\<close>

record PostEnv =
  auth :: "string option settled"
  now_at_start :: int
  ratelimit_limit :: "string \<Rightarrow> RateLimitResult settled"
  currentUser :: "UserProfile option settled"
  user_upsert :: "string \<Rightarrow> UserProfile option \<Rightarrow> unit settled"
  request_json :: "JsValue settled"
  deriveStrategies :: "string \<Rightarrow> Strategy list settled"
  GIPHY_API_KEY :: "string option"
  giphy :: "string \<Rightarrow> FetchResult"
  search_settles_at :: "nat \<Rightarrow> nat"
  selectGif :: "string \<Rightarrow> Strategy \<Rightarrow> (nat \<times> string \<times> string) list \<Rightarrow> (int \<times> string) settled"
  select_settles_at :: "nat \<Rightarrow> nat"
  user_findUnique :: "string \<Rightarrow> string option settled"
  date_now :: nat
  math_random :: string
  generation_create :: "GenerationData \<Rightarrow> unit settled"
  create_settles_at :: "nat \<Rightarrow> nat"

subsection \<open>Early returns, exceptions and the call trace\<close>

text \<open>
  A piece of the handler yields the calls it started and either the response with which the
  handler returns (\<open>Inl\<close>) or a value with which it goes on (\<open>Inr\<close>). An exception inside the
  outer \<^verbatim>\<open>try\<close> is the response of the \<^verbatim>\<open>catch\<close> block.
\<close>

type_synonym 'a io = "Call list \<times> (GenResponse + 'a)"

definition failed :: GenResponse where
  "failed = ServerError500 ''Failed to generate GIF recommendation''"

definition continue :: "'a \<Rightarrow> 'a io" where
  "continue x = ([], Inr x)"

definition respond :: "GenResponse \<Rightarrow> 'a io" where
  "respond r = ([], Inl r)"

definition await :: "Call \<Rightarrow> 'a settled \<Rightarrow> 'a io" where
  "await c p = ([c], case p of Rejected \<Rightarrow> Inl failed | Fulfilled v \<Rightarrow> Inr v)"

definition started :: "Call list \<Rightarrow> 'a io \<Rightarrow> 'a io" where
  "started cs m = (cs @ fst m, snd m)"

definition andThen :: "'a io \<Rightarrow> ('a \<Rightarrow> 'b io) \<Rightarrow> 'b io" where
  "andThen m f =
     (case snd m of
        Inl r \<Rightarrow> (fst m, Inl r)
      | Inr x \<Rightarrow> started (fst m) (f x))"

subsection \<open>\<^verbatim>\<open>Promise.all\<close>\<close>

text \<open>
  The branches settle in the order of their instants (ties in the order in which they were
  started). \<^verbatim>\<open>Promise.all\<close> stores each fulfilled value at the index of its branch, rejects at
  the first rejection, and fulfils with the array once every slot is filled; \<open>None\<close> means
  that it never settles.
\<close>

definition completion_order :: "(nat \<Rightarrow> nat) \<Rightarrow> nat \<Rightarrow> nat list" where
  "completion_order t n = sort_key t [0..<n]"

fun settle_step :: "'a option list settled \<Rightarrow> nat \<times> 'a settled \<Rightarrow> 'a option list settled" where
  "settle_step Rejected _ = Rejected"
| "settle_step (Fulfilled vs) (i, Rejected) = Rejected"
| "settle_step (Fulfilled vs) (i, Fulfilled v) = Fulfilled (vs[i := Some v])"

definition promise_all :: "(nat \<Rightarrow> nat) \<Rightarrow> 'a settled list \<Rightarrow> 'a list settled option" where
  "promise_all t ps =
     (case foldl settle_step (Fulfilled (replicate (length ps) None))
             (map (\<lambda>i. (i, ps ! i)) (completion_order t (length ps))) of
        Rejected \<Rightarrow> Some Rejected
      | Fulfilled vs \<Rightarrow> (case those vs of None \<Rightarrow> None | Some xs \<Rightarrow> Some (Fulfilled xs)))"

text \<open>\<^verbatim>\<open>await Promise.all(...)\<close> inside the outer \<^verbatim>\<open>try\<close>; the calls were started by the caller.\<close>

definition await_all :: "(nat \<Rightarrow> nat) \<Rightarrow> 'a settled list \<Rightarrow> 'a list io" where
  "await_all t ps =
     (case promise_all t ps of
        None \<Rightarrow> respond NoResponse
      | Some Rejected \<Rightarrow> respond failed
      | Some (Fulfilled xs) \<Rightarrow> continue xs)"

subsection \<open>Steps 2 and 3: rate limit and profile upsert\<close>

text \<open>Yields \<^verbatim>\<open>(limit, reset, remaining)\<close>.\<close>

definition gate :: "PostEnv \<Rightarrow> string option \<Rightarrow> (int \<times> int \<times> int) io" where
  "gate e userId =
     (if truthy userId then
        andThen (await (RateLimit (the userId)) (ratelimit_limit e (the userId))) (\<lambda>rateLimitResult.
          if \<not> success rateLimitResult
          then respond (TooManyRequests429 (rr_limit rateLimitResult) (rr_reset rateLimitResult))
          else
            andThen (await CurrentUser (currentUser e)) (\<lambda>user.
            andThen (await (UpsertUser (the userId) user) (user_upsert e (the userId) user)) (\<lambda>_.
            continue (rr_limit rateLimitResult, rr_reset rateLimitResult,
                      rr_remaining rateLimitResult))))
      else continue (10, now_at_start e + 24 * 60 * 60 * 1000, 0))"

text \<open>\<^verbatim>\<open>!text || typeof text !== "string"\<close> is false exactly for a non-empty string.\<close>

definition valid_text :: "JsValue \<Rightarrow> string option" where
  "valid_text v = (case v of JsString s \<Rightarrow> if s = [] then None else Some s | _ \<Rightarrow> None)"

definition read_text :: "PostEnv \<Rightarrow> string io" where
  "read_text e =
     andThen (await ReadBody (request_json e)) (\<lambda>text.
       case valid_text text of
         None \<Rightarrow> respond BadRequest400
       | Some s \<Rightarrow> continue s)"

subsection \<open>Step 4: strategies\<close>

text \<open>\<^verbatim>\<open>generateObject\<close> throws when the answer does not validate against the schema.\<close>

definition validated :: "('a \<Rightarrow> bool) \<Rightarrow> 'a settled \<Rightarrow> 'a settled" where
  "validated schema p =
     (case p of Rejected \<Rightarrow> Rejected | Fulfilled v \<Rightarrow> if schema v then Fulfilled v else Rejected)"

definition derive :: "PostEnv \<Rightarrow> string \<Rightarrow> Strategy list io" where
  "derive e text =
     andThen (await (DeriveStrategies text) (validated strategiesSchema (deriveStrategies e text)))
       (\<lambda>strategies.
          if \<not> truthy (GIPHY_API_KEY e)
          then respond (ServerError500 ''Giphy API key not configured'')
          else continue strategies)"

subsection \<open>Step 5: one search per strategy\<close>

fun join :: "string \<Rightarrow> string list \<Rightarrow> string" where
  "join sep [] = []"
| "join sep [x] = x"
| "join sep (x # y # ys) = x @ sep @ join sep (y # ys)"

definition searchQuery :: "Strategy \<Rightarrow> string" where
  "searchQuery strategy =
     (let reactionKeywords = join '' '' (strategy_keywords strategy)
      in if truthy (topic strategy) then reactionKeywords @ '' '' @ the (topic strategy)
         else reactionKeywords)"

definition search_one :: "PostEnv \<Rightarrow> Strategy \<Rightarrow> SearchResult" where
  "search_one e strategy =
     (case giphy e (searchQuery strategy) of
        FetchThrows \<Rightarrow>
          \<lparr> sr_strategy = strategy, sr_gifs = [], sr_error = Some ''Network error'' \<rparr>
      | NotOk status \<Rightarrow>
          \<lparr> sr_strategy = strategy, sr_gifs = [], sr_error = Some ''Search failed'' \<rparr>
      | OkBody d \<Rightarrow>
          \<lparr> sr_strategy = strategy, sr_gifs = (case d of None \<Rightarrow> [] | Some gs \<Rightarrow> gs),
            sr_error = None \<rparr>)"

definition search_all :: "PostEnv \<Rightarrow> Strategy list \<Rightarrow> SearchResult list io" where
  "search_all e strategies =
     started (map (\<lambda>s. GiphySearch (searchQuery s)) strategies)
       (await_all (search_settles_at e) (map (\<lambda>s. Fulfilled (search_one e s)) strategies))"

subsection \<open>Step 6: one selection per search result\<close>

definition gifOptions :: "Gif list \<Rightarrow> (nat \<times> string \<times> string) list" where
  "gifOptions gs = map (\<lambda>(index, gif). (index, title gif, alt_text gif)) (enumerate 0 gs)"

text \<open>\<^verbatim>\<open>result.gifs[i]\<close>: \<^verbatim>\<open>undefined\<close> outside the array.\<close>

definition gif_at :: "Gif list \<Rightarrow> int \<Rightarrow> Gif option" where
  "gif_at gs i = (if 0 \<le> i \<and> i < int (length gs) then Some (gs ! nat i) else None)"

definition needs_selection :: "SearchResult \<Rightarrow> bool" where
  "needs_selection result = (length (sr_gifs result) \<noteq> 0)"

definition select_one :: "PostEnv \<Rightarrow> string \<Rightarrow> SearchResult \<Rightarrow> Selection" where
  "select_one e text result =
     (if \<not> needs_selection result then
        \<lparr> sel_strategy = sr_strategy result, selectedGif = None,
          sel_reasoning = (if truthy (sr_error result) then the (sr_error result)
                           else ''No GIFs found for this perspective''),
          sel_error = True \<rparr>
      else
        (case validated selectionSchema
                (selectGif e text (sr_strategy result) (gifOptions (sr_gifs result))) of
           Fulfilled selection \<Rightarrow>
             \<lparr> sel_strategy = sr_strategy result,
               selectedGif = (case gif_at (sr_gifs result) (fst selection) of
                                Some g \<Rightarrow> Some g
                              | None \<Rightarrow> gif_at (sr_gifs result) 0),
               sel_reasoning = snd selection,
               sel_error = False \<rparr>
         | Rejected \<Rightarrow>
             \<lparr> sel_strategy = sr_strategy result,
               selectedGif = gif_at (sr_gifs result) 0,
               sel_reasoning = ''AI selection failed, using top result'',
               sel_error = True \<rparr>))"

definition select_all :: "PostEnv \<Rightarrow> string \<Rightarrow> SearchResult list \<Rightarrow> Selection list io" where
  "select_all e text searchResults =
     started (map (\<lambda>r. SelectGif (sr_strategy r)) (filter needs_selection searchResults))
       (await_all (select_settles_at e) (map (\<lambda>r. Fulfilled (select_one e text r)) searchResults))"

definition successful :: "Selection list \<Rightarrow> Selection list" where
  "successful selections = filter (\<lambda>s. selectedGif s \<noteq> None) selections"

subsection \<open>Step 7: persistence\<close>

definition digit_char :: "nat \<Rightarrow> char" where
  "digit_char d = ''0123456789'' ! d"

text \<open>The decimal rendering of a clock reading inside a template string (clock readings are
  far below the size at which JavaScript switches to exponent notation).\<close>

function show_nat :: "nat \<Rightarrow> string" where
  "show_nat n = (if n < 10 then [digit_char n] else show_nat (n div 10) @ [digit_char (n mod 10)])"
  by pat_completeness auto
termination
  by (relation "measure (\<lambda>n. n)") auto

declare show_nat.simps [simp del]

text \<open>\<^verbatim>\<open>s.substr(2, 9)\<close>\<close>

definition substr_2_9 :: "string \<Rightarrow> string" where
  "substr_2_9 s = take 9 (drop 2 s)"

text \<open>\<^verbatim>\<open>`group_${Date.now()}_${Math.random().toString(36).substr(2, 9)}`\<close>\<close>

definition make_generationGroupId :: "nat \<Rightarrow> string \<Rightarrow> string" where
  "make_generationGroupId now rnd = ''group_'' @ show_nat now @ ''_'' @ substr_2_9 rnd"

text \<open>The argument of one \<^verbatim>\<open>prisma.generation.create\<close>; reading \<^verbatim>\<open>selectedGif.images\<close> of
  \<^verbatim>\<open>null\<close> throws (\<open>None\<close>).\<close>

definition generation_data :: "string \<Rightarrow> string \<Rightarrow> string \<Rightarrow> Selection \<Rightarrow> GenerationData option" where
  "generation_data dbUserId text gid selection =
     (case selectedGif selection of
        None \<Rightarrow> None
      | Some g \<Rightarrow>
          Some \<lparr> d_userId = dbUserId, d_inputText = text,
                 d_keywords = strategy_keywords (sel_strategy selection),
                 d_topic = topic (sel_strategy selection),
                 d_reasoning = sel_reasoning selection,
                 d_gifUrl = original_url g, d_gifTitle = title g,
                 d_perspective = perspective_name (perspective (sel_strategy selection)),
                 d_generationGroupId = gid \<rparr>)"

definition persist :: "PostEnv \<Rightarrow> string option \<Rightarrow> string \<Rightarrow> Selection list \<Rightarrow> unit io" where
  "persist e userId text successfulSelections =
     (if truthy userId then
        andThen (await (FindUser (the userId)) (user_findUnique e (the userId))) (\<lambda>dbUser.
          case dbUser of
            None \<Rightarrow> continue ()
          | Some dbUserId \<Rightarrow>
              (let gid = make_generationGroupId (date_now e) (math_random e) in
               case those (map (generation_data dbUserId text gid) successfulSelections) of
                 None \<Rightarrow> respond failed
               | Some datas \<Rightarrow>
                   andThen
                     (started (map CreateGeneration datas)
                        (await_all (create_settles_at e) (map (generation_create e) datas)))
                     (\<lambda>_. continue ())))
      else continue ())"

subsection \<open>The response\<close>

definition gif_result :: "Selection \<Rightarrow> GifResult option" where
  "gif_result selection =
     (case selectedGif selection of
        None \<Rightarrow> None
      | Some g \<Rightarrow>
          Some \<lparr> r_url = original_url g,
                 r_keywords = strategy_keywords (sel_strategy selection),
                 r_topic = topic (sel_strategy selection),
                 r_reasoning = sel_reasoning selection,
                 r_title = title g,
                 r_perspective = perspective (sel_strategy selection) \<rparr>)"

text \<open>
  \<^verbatim>\<open>new Date(reset).toISOString()\<close> throws a \<^verbatim>\<open>RangeError\<close> when the time value lies outside the
  range of \<^verbatim>\<open>Date\<close>, which is 8.64e15 milliseconds on either side of the epoch.
\<close>

definition date_in_range :: "int \<Rightarrow> bool" where
  "date_in_range t = (\<bar>t\<bar> \<le> 8640000000000000)"

text \<open>
  The response object is built first; the rate-limit member is added for an identified caller
  only, and its \<^verbatim>\<open>reset\<close> is rendered then.
\<close>

definition build_response ::
  "string option \<Rightarrow> int \<times> int \<times> int \<Rightarrow> Selection list \<Rightarrow> unit io" where
  "build_response userId lim successfulSelections =
     (case those (map gif_result successfulSelections) of
        None \<Rightarrow> respond failed
      | Some rs \<Rightarrow>
          if truthy userId then
            if date_in_range (fst (snd lim)) then
              respond (Ok200 \<lparr> results = rs, totalFound = length successfulSelections,
                               requestedPerspectives = 3,
                               rateLimit = Some \<lparr> remaining = snd (snd lim),
                                                   info_limit = fst lim,
                                                   reset = fst (snd lim) \<rparr> \<rparr>)
            else respond failed
          else
            respond (Ok200 \<lparr> results = rs, totalFound = length successfulSelections,
                             requestedPerspectives = 3, rateLimit = None \<rparr>))"

subsection \<open>The handler\<close>

definition pipeline :: "PostEnv \<Rightarrow> unit io" where
  "pipeline e =
     andThen (await Auth (auth e)) (\<lambda>userId.
     andThen (gate e userId) (\<lambda>lim.
     andThen (read_text e) (\<lambda>text.
     andThen (derive e text) (\<lambda>strategies.
     andThen (search_all e strategies) (\<lambda>searchResults.
     andThen (select_all e text searchResults) (\<lambda>selections.
       if length (successful selections) = 0 then respond NotFound404
       else
         andThen (persist e userId text (successful selections)) (\<lambda>_.
         build_response userId lim (successful selections))))))))"

text \<open>The response of the handler and the calls it started. The handler always ends in a
  \<^verbatim>\<open>return\<close>, so a run that falls through has no response.\<close>

definition POST :: "PostEnv \<Rightarrow> GenResponse \<times> Call list" where
  "POST e = (case snd (pipeline e) of Inl r \<Rightarrow> r | Inr _ \<Rightarrow> NoResponse, fst (pipeline e))"

text \<open>The rows of the record store written by a run: the creates that were started and
  fulfilled.\<close>

definition persisted :: "PostEnv \<Rightarrow> Call list \<Rightarrow> GenerationData list" where
  "persisted e calls =
     concat (map (\<lambda>c. case c of
                        CreateGeneration d \<Rightarrow>
                          (if generation_create e d = Fulfilled () then [d] else [])
                      | _ \<Rightarrow> []) calls)"

section \<open>Auxiliary definitions\<close>

text \<open>The selections of a run whose strategies are \<open>strategies\<close>, by branch.\<close>

definition selections_of :: "PostEnv \<Rightarrow> string \<Rightarrow> Strategy list \<Rightarrow> Selection list" where
  "selections_of e text strategies = map (\<lambda>s. select_one e text (search_one e s)) strategies"

text \<open>The calls started before the selections are aggregated.\<close>

definition calls_before_aggregation ::
  "PostEnv \<Rightarrow> string option \<Rightarrow> string \<Rightarrow> Strategy list \<Rightarrow> Call list" where
  "calls_before_aggregation e userId text strategies =
     [Auth] @ fst (gate e userId) @ [ReadBody] @ [DeriveStrategies text]
     @ map (\<lambda>s. GiphySearch (searchQuery s)) strategies
     @ map (\<lambda>r. SelectGif (sr_strategy r)) (filter needs_selection (map (search_one e) strategies))"

text \<open>Calls to the reasoning service and to the search service.\<close>

fun spends_budget :: "Call \<Rightarrow> bool" where
  "spends_budget (DeriveStrategies _) = True"
| "spends_budget (GiphySearch _) = True"
| "spends_budget (SelectGif _) = True"
| "spends_budget _ = False"

text \<open>Writes of generation rows.\<close>

fun is_create :: "Call \<Rightarrow> bool" where
  "is_create (CreateGeneration _) = True"
| "is_create _ = False"

text \<open>The rank of a perspective in the order emotional, literal, sarcastic (the order table of
  the history route, read at the name of the perspective).\<close>

definition perspective_rank :: "Perspective \<Rightarrow> int" where
  "perspective_rank p = order_number (Some (perspective_name p))"

text \<open>The rows that the persistence step asks the store to create.\<close>

definition generation_rows :: "PostEnv \<Rightarrow> string \<Rightarrow> string \<Rightarrow> Selection list \<Rightarrow> GenerationData list" where
  "generation_rows e dbUserId text sels =
     List.map_filter
       (generation_data dbUserId text (make_generationGroupId (date_now e) (math_random e))) sels"

text \<open>The body of the successful response.\<close>

definition response_data :: "string option \<Rightarrow> int \<times> int \<times> int \<Rightarrow> Selection list \<Rightarrow> ResponseData" where
  "response_data userId lim sels =
     \<lparr> results = List.map_filter gif_result sels, totalFound = length sels,
       requestedPerspectives = 3,
       rateLimit = (if truthy userId
                    then Some \<lparr> remaining = snd (snd lim), info_limit = fst lim,
                                reset = fst (snd lim) \<rparr>
                    else None) \<rparr>"

text \<open>A sample request: an identified caller with quota left, three strategies in rank order,
  of which the first finds two candidates, the second search fails and the third finds
  nothing.\<close>

definition gif_1 :: Gif where
  "gif_1 = \<lparr> title = ''Relieved Sigh'', alt_text = ''a man sighs with relief'',
             original_url = ''https://media.giphy.com/media/1/giphy.gif'' \<rparr>"

definition gif_2 :: Gif where
  "gif_2 = \<lparr> title = ''Finally'', alt_text = [],
             original_url = ''https://media.giphy.com/media/2/giphy.gif'' \<rparr>"

definition strategy_e :: Strategy where
  "strategy_e = \<lparr> strategy_keywords = [''relieved''], topic = None, perspective = emotional,
                  reasoning = ''the mood is relief'' \<rparr>"

definition strategy_l :: Strategy where
  "strategy_l = \<lparr> strategy_keywords = [''typing'', ''fast''], topic = Some ''code'',
                  perspective = literal, reasoning = ''what happens'' \<rparr>"

definition strategy_s :: Strategy where
  "strategy_s = \<lparr> strategy_keywords = [''this is fine''], topic = None, perspective = sarcastic,
                  reasoning = ''irony'' \<rparr>"


definition sample_env :: PostEnv where
  "sample_env =
     \<lparr> auth = Fulfilled (Some ''user_1''),
       now_at_start = 1764323043000,
       ratelimit_limit = (\<lambda>_. Fulfilled \<lparr> success = True, rr_limit = 10, rr_remaining = 2,
                                          rr_reset = 1764409443000 \<rparr>),
       currentUser = Fulfilled None,
       user_upsert = (\<lambda>_ _. Fulfilled ()),
       request_json = Fulfilled (JsString ''my code finally compiled''),
       deriveStrategies = (\<lambda>_. Fulfilled [strategy_e, strategy_l, strategy_s]),
       GIPHY_API_KEY = Some ''key'',
       giphy = (\<lambda>q. if q = ''relieved'' then OkBody (Some [gif_1, gif_2])
                     else if q = ''typing fast code'' then NotOk 503
                     else OkBody (Some [])),
       search_settles_at = (\<lambda>i. 3 - i),
       selectGif = (\<lambda>_ _ _. Fulfilled (1, ''matches the mood'')),
       select_settles_at = (\<lambda>i. 3 - i),
       user_findUnique = (\<lambda>_. Fulfilled (Some ''db_1'')),
       date_now = 1764323044000,
       math_random = ''0.4fzyo82mvyr'',
       generation_create = (\<lambda>_. Fulfilled ()),
       create_settles_at = (\<lambda>i. i) \<rparr>"

text \<open>The values of the fulfilled promises of a list.\<close>

definition fulfilled_values :: "'a settled list \<Rightarrow> 'a list" where
  "fulfilled_values ps =
     List.map_filter (\<lambda>p. case p of Rejected \<Rightarrow> None | Fulfilled v \<Rightarrow> Some v) ps"

text \<open>The entry built from a group that has a first row.\<close>

definition entry_of :: "string \<times> Generation list \<Rightarrow> HistoryGroup" where
  "entry_of kv = \<lparr> groupId = fst kv, hg_inputText = inputText (hd (snd kv)),
                  hg_createdAt = createdAt (hd (snd kv)), gifs = sort_gifs (snd kv) \<rparr>"

text \<open>Sample rows: two rows of one session and one row older than the grouping column.\<close>

definition row_a :: Generation where
  "row_a = \<lparr> gen_id = ''a'', inputText = ''deploy on friday'', gen_keywords = [''typing''],
             gen_topic = None, gifUrl = ''https://media.giphy.com/a.gif'', gifTitle = ''Typing'',
             createdAt = 1764323044000, gen_perspective = Some ''literal'',
             generationGroupId = Some ''g'' \<rparr>"

definition row_b :: Generation where
  "row_b = \<lparr> gen_id = ''b'', inputText = ''deploy on friday'', gen_keywords = [''nervous''],
             gen_topic = None, gifUrl = ''https://media.giphy.com/b.gif'', gifTitle = ''Nervous'',
             createdAt = 1764323044000, gen_perspective = Some ''emotional'',
             generationGroupId = Some ''g'' \<rparr>"

definition row_c :: Generation where
  "row_c = \<lparr> gen_id = ''c'', inputText = ''monday'', gen_keywords = [''tired''],
             gen_topic = Some ''coffee'', gifUrl = ''https://media.giphy.com/c.gif'',
             gifTitle = ''Tired'', createdAt = 1700000000000, gen_perspective = None,
             generationGroupId = None \<rparr>"




section \<open>Properties of the history route\<close>

subsection \<open>The grouping map\<close>

lemma group_all_snoc: "group_all (xs @ [x]) = group_step (group_all xs) x"
  by (simp add: group_all_def)

lemma group_all_Nil: "group_all [] = []"
  by (simp add: group_all_def)

lemma fst_map_push: "map fst (map_push grouped k gen) = map fst grouped"
  by (induction grouped) (auto simp: map_push_def)

lemma keys_group_step:
  "map fst (group_step grouped gen) =
     (if groupKey gen \<in> set (map fst grouped) then map fst grouped
      else map fst grouped @ [groupKey gen])"
  by (simp add: group_step_def Let_def fst_map_push map_has_def map_set_empty_def)

lemma distinct_keys_group_all: "distinct (map fst (group_all xs))"
  by (induction xs rule: rev_induct) (simp_all add: group_all_Nil group_all_snoc keys_group_step)

lemma keys_group_all: "set (map fst (group_all xs)) = groupKey ` set xs"
  by (induction xs rule: rev_induct) (auto simp: group_all_Nil group_all_snoc keys_group_step)

lemma in_map_push:
  "(k', gs') \<in> set (map_push grouped k gen) \<longleftrightarrow>
     (\<exists>gs. (k', gs) \<in> set grouped \<and> gs' = (if k' = k then gs @ [gen] else gs))"
proof (induction grouped)
  case Nil
  then show ?case by (simp add: map_push_def)
next
  case (Cons a grouped)
  obtain ka gsa where a: "a = (ka, gsa)" by (cases a)
  have unf: "map_push (a # grouped) k gen =
      (if ka = k then (ka, gsa @ [gen]) else (ka, gsa)) # map_push grouped k gen"
    by (simp add: map_push_def a)
  show ?case
    unfolding unf using Cons.IH by (auto simp: a)
qed

lemma in_group_step:
  "(k, gs') \<in> set (group_step grouped gen) \<longleftrightarrow>
     (if k = groupKey gen
      then (if k \<in> set (map fst grouped) then \<exists>gs. (k, gs) \<in> set grouped \<and> gs' = gs @ [gen]
            else gs' = [gen])
      else (k, gs') \<in> set grouped)"
proof (cases "groupKey gen \<in> set (map fst grouped)")
  case True
  then have "group_step grouped gen = map_push grouped (groupKey gen) gen"
    by (simp add: group_step_def Let_def map_has_def)
  then show ?thesis using True by (simp add: in_map_push)
next
  case False
  then have step: "group_step grouped gen =
      map_push (grouped @ [(groupKey gen, [])]) (groupKey gen) gen"
    by (simp add: group_step_def Let_def map_has_def map_set_empty_def)
  have absent: "\<And>gs. (groupKey gen, gs) \<notin> set grouped"
    using False by force
  show ?thesis
    unfolding step in_map_push using False absent by auto
qed

lemma members_group_all:
  "(k, gs) \<in> set (group_all xs) \<Longrightarrow> gs = filter (\<lambda>g. groupKey g = k) xs \<and> gs \<noteq> []"
proof (induction xs arbitrary: k gs rule: rev_induct)
  case Nil
  then show ?case by (simp add: group_all_Nil)
next
  case (snoc x xs)
  have mem: "(k, gs) \<in> set (group_step (group_all xs) x)"
    using snoc.prems by (simp add: group_all_snoc)
  show ?case
  proof (cases "k = groupKey x")
    case False
    with mem have "(k, gs) \<in> set (group_all xs)" by (simp add: in_group_step)
    with snoc.IH False show ?thesis by simp
  next
    case True
    show ?thesis
    proof (cases "k \<in> set (map fst (group_all xs))")
      case True
      with mem \<open>k = groupKey x\<close> obtain gs0 where
        "(k, gs0) \<in> set (group_all xs)" "gs = gs0 @ [x]"
        by (auto simp: in_group_step)
      with snoc.IH \<open>k = groupKey x\<close> show ?thesis by simp
    next
      case False
      with mem \<open>k = groupKey x\<close> have gs: "gs = [x]" by (simp add: in_group_step)
      have "filter (\<lambda>g. groupKey g = k) xs = []"
        using False keys_group_all [of xs] by (force simp: filter_empty_conv)
      with gs \<open>k = groupKey x\<close> show ?thesis by simp
    qed
  qed
qed

lemma those_entries_nonempty:
  "\<forall>kv \<in> set grouped. snd kv \<noteq> [] \<Longrightarrow>
     those_entries (map group_entry grouped) = Some (map entry_of grouped)"
proof (induction grouped)
  case Nil
  then show ?case by simp
next
  case (Cons kv grouped)
  then obtain g0 gs where "snd kv = g0 # gs" by (cases "snd kv") auto
  then have "group_entry kv = Some (entry_of kv)"
    by (simp add: group_entry_def entry_of_def)
  with Cons show ?case by simp
qed

lemma groupedArray_eq: "groupedArray recs = Some (map entry_of (group_all recs))"
  unfolding groupedArray_def
  by (rule those_entries_nonempty) (auto dest: members_group_all)

subsection \<open>Sorting a group\<close>

lemma engine_sort_single: "engine_sort c [x] = [x]"
  by (simp add: engine_sort_def)

lemma sort_gifs_single: "sort_gifs [r] = [r]"
  by (simp add: sort_gifs_def engine_sort_single)

lemma sort_gifs_numbers:
  "\<forall>r \<in> set gs. perspective_order (gen_perspective r) \<noteq> None \<Longrightarrow>
     sort_gifs gs = sort_key (\<lambda>g. order_number (gen_perspective g)) gs"
  by (simp add: sort_gifs_def list_all_iff)

lemma perspective_order_ranks:
  "perspective_order (Some ''emotional'') = Some 0"
  "perspective_order (Some ''literal'') = Some 1"
  "perspective_order (Some ''sarcastic'') = Some 2"
  "perspective_order None = Some 999"
  "p \<notin> {''emotional'', ''literal'', ''sarcastic''} \<Longrightarrow> p \<notin> set inherited_members \<Longrightarrow>
     perspective_order (Some p) = Some 999"
  "p \<in> set inherited_members \<Longrightarrow> perspective_order (Some p) = None"
  by (auto simp: perspective_order_def inherited_members_def)

subsection \<open>The worked example\<close>

lemma grouping_example: 
  "groupedArray
      [a0\<lparr>gen_id := ''a'', gen_perspective := Some ''literal'', generationGroupId := Some ''g''\<rparr>,
       b0\<lparr>gen_id := ''b'', gen_perspective := Some ''emotional'', generationGroupId := Some ''g''\<rparr>,
       c0\<lparr>gen_id := ''c'', generationGroupId := None\<rparr>]
    = Some
      [\<lparr>groupId = ''g'', hg_inputText = inputText a0, hg_createdAt = createdAt a0,
        gifs = [b0\<lparr>gen_id := ''b'', gen_perspective := Some ''emotional'', generationGroupId := Some ''g''\<rparr>,
                a0\<lparr>gen_id := ''a'', gen_perspective := Some ''literal'', generationGroupId := Some ''g''\<rparr>]\<rparr>,
       \<lparr>groupId = ''c'', hg_inputText = inputText c0, hg_createdAt = createdAt c0,
        gifs = [c0\<lparr>gen_id := ''c'', generationGroupId := None\<rparr>]\<rparr>]"
proof -
  let ?a = "a0\<lparr>gen_id := ''a'', gen_perspective := Some ''literal'', generationGroupId := Some ''g''\<rparr>"
  let ?b = "b0\<lparr>gen_id := ''b'', gen_perspective := Some ''emotional'', generationGroupId := Some ''g''\<rparr>"
  let ?c = "c0\<lparr>gen_id := ''c'', generationGroupId := None\<rparr>"
  have ka: "groupKey ?a = ''g''" and kb: "groupKey ?b = ''g''" and kc: "groupKey ?c = ''c''"
    by (simp_all add: groupKey_def truthy_def)
  have s1: "group_step [] ?a = [(''g'', [?a])]"
    by (simp add: group_step_def Let_def ka map_has_def map_set_empty_def map_push_def)
  have s2: "group_step [(''g'', [?a])] ?b = [(''g'', [?a, ?b])]"
    by (simp add: group_step_def Let_def kb map_has_def map_set_empty_def map_push_def)
  have s3: "group_step [(''g'', [?a, ?b])] ?c = [(''g'', [?a, ?b]), (''c'', [?c])]"
    by (simp add: group_step_def Let_def kc map_has_def map_set_empty_def map_push_def)
  have g: "group_all [?a, ?b, ?c] = [(''g'', [?a, ?b]), (''c'', [?c])]"
    by (simp add: group_all_def s1 s2 s3)
  have srt: "sort_gifs [?a, ?b] = [?b, ?a]" "sort_gifs [?c] = [?c]"
    by (simp_all add: sort_gifs_single)
       (simp add: sort_gifs_def perspective_order_def order_number_def)
  show ?thesis
    by (simp add: groupedArray_def g group_entry_def srt)
qed


subsection \<open>Grouping and ordering of arbitrary rows\<close>

text \<open>
  On rows whose perspectives are looked up to numbers (one of the three names, \<^verbatim>\<open>null\<close>, or a
  string that names no inherited member) the reconstruction is as intended: the groups have
  pairwise distinct keys, every row lies in the group of its key, the rows of a group are the
  stable sort by 0, 1, 2, 999 of the rows with that key, and a row without group id that
  shares its key with no other row is a group of its own.
\<close>

lemma history_grouping:
  assumes "\<forall>r \<in> set recs. perspective_order (gen_perspective r) \<noteq> None"
  shows "\<exists>ga. groupedArray recs = Some ga
      \<and> distinct (map groupId ga)
      \<and> set (map groupId ga) = groupKey ` set recs
      \<and> (\<forall>h \<in> set ga.
            gifs h = sort_key (\<lambda>g. order_number (gen_perspective g))
                       (filter (\<lambda>r. groupKey r = groupId h) recs)
          \<and> set (gifs h) = {r \<in> set recs. groupKey r = groupId h}
          \<and> sorted (map (\<lambda>r. order_number (gen_perspective r)) (gifs h)))
      \<and> (\<forall>r \<in> set recs. generationGroupId r = None \<longrightarrow>
            groupKey r = gen_id r
          \<and> (filter (\<lambda>r'. groupKey r' = gen_id r) recs = [r] \<longrightarrow>
               (\<exists>h \<in> set ga. groupId h = gen_id r \<and> gifs h = [r])))"
proof -
  let ?ga = "map entry_of (group_all recs)"
  let ?key = "\<lambda>g. order_number (gen_perspective g)"
  have ids: "map groupId ?ga = map fst (group_all recs)"
    by (simp add: entry_of_def comp_def)
  have each: "gifs h = sort_key ?key (filter (\<lambda>r. groupKey r = groupId h) recs)"
    if "h \<in> set ?ga" for h
  proof -
    from that obtain k gs where kv: "(k, gs) \<in> set (group_all recs)" "h = entry_of (k, gs)"
      by auto
    from members_group_all [OF kv(1)] have gs: "gs = filter (\<lambda>g. groupKey g = k) recs"
      by simp
    have "sort_gifs gs = sort_key ?key gs"
      by (rule sort_gifs_numbers) (simp add: gs assms)
    with gs kv(2) show ?thesis
      by (simp add: entry_of_def)
  qed
  have legacy_key: "groupKey r = gen_id r" if "generationGroupId r = None" for r
    using that by (simp add: groupKey_def truthy_def)
  have single: "\<exists>h \<in> set ?ga. groupId h = gen_id r \<and> gifs h = [r]"
    if "r \<in> set recs" "generationGroupId r = None"
       "filter (\<lambda>r'. groupKey r' = gen_id r) recs = [r]" for r
  proof -
    have "groupKey r \<in> groupKey ` set recs"
      using that(1) by (rule imageI)
    then have "gen_id r \<in> set (map groupId ?ga)"
      unfolding ids keys_group_all by (simp only: legacy_key [OF that(2)])
    then have "gen_id r \<in> groupId ` set ?ga"
      by (simp only: set_map)
    then obtain h where h': "gen_id r = groupId h" "h \<in> set ?ga"
      by (rule imageE)
    then have h: "h \<in> set ?ga" "groupId h = gen_id r"
      by simp_all
    with each [OF h(1)] that(3) have "gifs h = [r]" by simp
    with h show ?thesis by blast
  qed
  show ?thesis
  proof (intro exI [of _ ?ga] conjI ballI impI)
    show "groupedArray recs = Some ?ga" by (rule groupedArray_eq)
    show "distinct (map groupId ?ga)" unfolding ids by (rule distinct_keys_group_all)
    show "set (map groupId ?ga) = groupKey ` set recs" unfolding ids by (rule keys_group_all)
  next
    fix h assume "h \<in> set ?ga"
    then show "gifs h = sort_key ?key (filter (\<lambda>r. groupKey r = groupId h) recs)"
      by (rule each)
  next
    fix h assume "h \<in> set ?ga"
    then show "set (gifs h) = {r \<in> set recs. groupKey r = groupId h}"
      by (simp add: each)
  next
    fix h assume "h \<in> set ?ga"
    then show "sorted (map ?key (gifs h))"
      by (simp add: each)
  next
    fix r assume "r \<in> set recs" "generationGroupId r = None"
    then show "groupKey r = gen_id r" by (simp add: legacy_key)
  next
    fix r assume "r \<in> set recs" "generationGroupId r = None"
      "filter (\<lambda>r'. groupKey r' = gen_id r) recs = [r]"
    then show "\<exists>h \<in> set ?ga. groupId h = gen_id r \<and> gifs h = [r]" by (rule single)
  qed
qed

subsection \<open>Where the reconstruction misses its aim\<close>



subsection \<open>A caller without profile row\<close>

text \<open>
  C10. For an authenticated caller whose identity has no profile row in the record store the
  history route answers with an empty \<^verbatim>\<open>generations\<close> list and no \<^verbatim>\<open>pagination\<close> object,
  whereas a caller with a profile row whose rows can be read always gets a \<^verbatim>\<open>pagination\<close>
  object.
\<close>

theorem history_without_profile_row:
  "h_auth e = Fulfilled (Some uid) \<Longrightarrow> uid \<noteq> [] \<Longrightarrow>
     (h_findUnique e uid = Fulfilled None \<longrightarrow> GET e = HistoryJson [] None)
   \<and> (h_findUnique e uid = Fulfilled (Some pid) \<and> h_findMany e pid = Fulfilled rows \<longrightarrow>
        (\<exists>gens pg. GET e = HistoryJson gens (Some pg)))"
  by (simp add: GET_def truthy_def groupedArray_eq Let_def)

theorem history_without_profile_row_witness:
  "h_auth \<lparr> h_auth = Fulfilled (Some ''user_2abc''), h_findUnique = (\<lambda>_. Fulfilled None),
            h_page = Some 1, h_limit = Some 12, h_findMany = (\<lambda>_. Fulfilled []) \<rparr>
     = Fulfilled (Some ''user_2abc'')
   \<and> ''user_2abc'' \<noteq> []
   \<and> GET \<lparr> h_auth = Fulfilled (Some ''user_2abc''), h_findUnique = (\<lambda>_. Fulfilled None),
            h_page = Some 1, h_limit = Some 12, h_findMany = (\<lambda>_. Fulfilled []) \<rparr>
     = HistoryJson [] None
   \<and> (\<exists>gens pg.
        GET \<lparr> h_auth = Fulfilled (Some ''user_2abc''),
              h_findUnique = (\<lambda>_. Fulfilled (Some ''profile_1'')),
              h_page = Some 1, h_limit = Some 12,
              h_findMany = (\<lambda>_. Fulfilled [row_a, row_b, row_c]) \<rparr>
          = HistoryJson gens (Some pg))"
  using history_without_profile_row
    [of "\<lparr> h_auth = Fulfilled (Some ''user_2abc''), h_findUnique = (\<lambda>_. Fulfilled None),
            h_page = Some 1, h_limit = Some 12, h_findMany = (\<lambda>_. Fulfilled []) \<rparr>"
        "''user_2abc''"]
    history_without_profile_row
    [of "\<lparr> h_auth = Fulfilled (Some ''user_2abc''),
            h_findUnique = (\<lambda>_. Fulfilled (Some ''profile_1'')),
            h_page = Some 1, h_limit = Some 12,
            h_findMany = (\<lambda>_. Fulfilled [row_a, row_b, row_c]) \<rparr>"
        "''user_2abc''" "''profile_1''" "[row_a, row_b, row_c]"]
  by simp

section \<open>Properties of the generation route\<close>

subsection \<open>\<^verbatim>\<open>Promise.all\<close> yields the values by branch index\<close>

lemma set_completion_order: "set (completion_order t n) = {0..<n}"
  by (simp add: completion_order_def)

lemma those_map_Some: "those (map Some xs) = Some xs"
  by (induction xs) simp_all

lemma foldl_settle_Rejected: "foldl settle_step Rejected xs = Rejected"
  by (induction xs) simp_all

lemma foldl_settle_hits_rejection:
  "i \<in> set js \<Longrightarrow> ps ! i = Rejected \<Longrightarrow>
     foldl settle_step st (map (\<lambda>i. (i, ps ! i)) js) = Rejected"
proof (induction js arbitrary: st)
  case Nil
  then show ?case by simp
next
  case (Cons j js)
  show ?case
  proof (cases st)
    case Rejected
    then show ?thesis by (simp add: foldl_settle_Rejected)
  next
    case (Fulfilled vs)
    show ?thesis
    proof (cases "ps ! j")
      case Rejected
      with Fulfilled show ?thesis by (simp add: foldl_settle_Rejected)
    next
      case (Fulfilled v)
      with Cons.prems have "i \<in> set js" by auto
      from Cons.IH [OF this Cons.prems(2)] \<open>st = Fulfilled vs\<close> Fulfilled
      show ?thesis by simp
    qed
  qed
qed

lemma foldl_settle_all_fulfilled:
  "set js \<subseteq> {0..<length xs} \<Longrightarrow> length vs = length xs \<Longrightarrow>
     foldl settle_step (Fulfilled vs) (map (\<lambda>i. (i, map Fulfilled xs ! i)) js) =
       Fulfilled (map (\<lambda>j. if j \<in> set js then Some (xs ! j) else vs ! j) [0..<length xs])"
proof (induction js arbitrary: vs)
  case Nil
  have "map ((!) vs) [0..<length vs] = vs" by (rule map_nth)
  with Nil show ?case by simp
next
  case (Cons j js)
  from Cons.prems have j: "j < length xs" and js: "set js \<subseteq> {0..<length xs}" by auto
  have len: "length (vs[j := Some (xs ! j)]) = length xs" using Cons.prems by simp
  have "foldl settle_step (Fulfilled vs) (map (\<lambda>i. (i, map Fulfilled xs ! i)) (j # js)) =
        foldl settle_step (Fulfilled (vs[j := Some (xs ! j)]))
          (map (\<lambda>i. (i, map Fulfilled xs ! i)) js)"
    using j by simp
  also have "\<dots> = Fulfilled (map (\<lambda>k. if k \<in> set js then Some (xs ! k)
                                    else vs[j := Some (xs ! j)] ! k) [0..<length xs])"
    by (rule Cons.IH [OF js len])
  also have "map (\<lambda>k. if k \<in> set js then Some (xs ! k) else vs[j := Some (xs ! j)] ! k)
               [0..<length xs] =
             map (\<lambda>k. if k \<in> set (j # js) then Some (xs ! k) else vs ! k) [0..<length xs]"
    using Cons.prems(2) by (auto simp: nth_list_update)
  finally show ?case .
qed

lemma promise_all_fulfilled: "promise_all t (map Fulfilled xs) = Some (Fulfilled xs)"
proof -
  let ?js = "completion_order t (length xs)"
  have "foldl settle_step (Fulfilled (replicate (length xs) None))
          (map (\<lambda>i. (i, map Fulfilled xs ! i)) ?js) =
        Fulfilled (map (\<lambda>j. if j \<in> set ?js then Some (xs ! j)
                             else replicate (length xs) None ! j) [0..<length xs])"
    by (rule foldl_settle_all_fulfilled) (simp_all add: set_completion_order)
  also have "map (\<lambda>j. if j \<in> set ?js then Some (xs ! j) else replicate (length xs) None ! j)
               [0..<length xs] = map Some xs"
    by (rule nth_equalityI) (simp_all add: set_completion_order)
  finally show ?thesis
    by (simp add: promise_all_def those_map_Some)
qed

lemma promise_all_rejected:
  assumes "Rejected \<in> set ps"
  shows "promise_all t ps = Some Rejected"
proof -
  from assms obtain i where i: "i < length ps" "ps ! i = Rejected"
    by (auto simp: in_set_conv_nth)
  then have "i \<in> set (completion_order t (length ps))"
    by (simp add: set_completion_order)
  from foldl_settle_hits_rejection [OF this i(2)] show ?thesis
    by (simp add: promise_all_def)
qed

lemma await_all_fulfilled: "await_all t (map Fulfilled xs) = continue xs"
  by (simp add: await_all_def promise_all_fulfilled)

lemma await_all_rejected: "Rejected \<in> set ps \<Longrightarrow> await_all t ps = respond failed"
  by (simp add: await_all_def promise_all_rejected)

lemma unit_promises:
  "Rejected \<notin> set ps \<Longrightarrow> ps = map Fulfilled (replicate (length ps) ())"
proof (induction ps)
  case Nil
  then show ?case by simp
next
  case (Cons p ps)
  then show ?case by (cases p) auto
qed

subsection \<open>Sequencing\<close>

lemma started_Nil: "started [] m = m"
  by (simp add: started_def)

lemma started_started: "started cs (started ds m) = started (cs @ ds) m"
  by (simp add: started_def)

lemma started_pair: "started cs (ds, r) = (cs @ ds, r)"
  by (simp add: started_def)

lemma andThen_Inr: "andThen (cs, Inr x) f = started cs (f x)"
  by (simp add: andThen_def)

lemma andThen_Inl: "andThen (cs, Inl r) f = (cs, Inl r)"
  by (simp add: andThen_def)

lemma andThen_continue: "andThen (continue x) f = f x"
  by (simp add: andThen_def continue_def started_def)

lemma andThen_respond: "andThen (respond r) f = respond r"
  by (simp add: andThen_def respond_def)

lemma andThen_started: "andThen (started cs m) f = started cs (andThen m f)"
  by (cases "snd m") (simp_all add: andThen_def started_def)

lemma await_Fulfilled: "await c (Fulfilled v) = ([c], Inr v)"
  by (simp add: await_def)

lemma await_Rejected: "await c Rejected = ([c], Inl failed)"
  by (simp add: await_def)

lemma search_all_eq:
  "search_all e strategies =
     (map (\<lambda>s. GiphySearch (searchQuery s)) strategies, Inr (map (search_one e) strategies))"
proof -
  have "map (\<lambda>s. Fulfilled (search_one e s)) strategies = map Fulfilled (map (search_one e) strategies)"
    by simp
  then show ?thesis
    by (simp only: search_all_def await_all_fulfilled continue_def started_pair append_Nil2)
qed

lemma select_all_eq:
  "select_all e text rs =
     (map (\<lambda>r. SelectGif (sr_strategy r)) (filter needs_selection rs),
      Inr (map (select_one e text) rs))"
proof -
  have "map (\<lambda>r. Fulfilled (select_one e text r)) rs = map Fulfilled (map (select_one e text) rs)"
    by simp
  then show ?thesis
    by (simp only: select_all_def await_all_fulfilled continue_def started_pair append_Nil2)
qed

lemma read_text_valid:
  "request_json e = Fulfilled (JsString text) \<Longrightarrow> text \<noteq> [] \<Longrightarrow>
     read_text e = ([ReadBody], Inr text)"
  by (simp add: read_text_def await_Fulfilled andThen_Inr valid_text_def continue_def started_pair)


lemma derive_ok:
  "deriveStrategies e text = Fulfilled strategies \<Longrightarrow> strategiesSchema strategies \<Longrightarrow>
   truthy (GIPHY_API_KEY e) \<Longrightarrow>
     derive e text = ([DeriveStrategies text], Inr strategies)"
  by (simp add: derive_def validated_def await_Fulfilled andThen_Inr continue_def started_pair)

lemma pipeline_reaches_aggregation:
  assumes "auth e = Fulfilled userId"
    and "gate e userId = (gcalls, Inr lim)"
    and "request_json e = Fulfilled (JsString text)" and "text \<noteq> []"
    and "deriveStrategies e text = Fulfilled strategies" and "strategiesSchema strategies"
    and "truthy (GIPHY_API_KEY e)"
  shows "pipeline e =
     started (calls_before_aggregation e userId text strategies)
       (if length (successful (selections_of e text strategies)) = 0 then respond NotFound404
        else andThen (persist e userId text (successful (selections_of e text strategies)))
               (\<lambda>_. build_response userId lim (successful (selections_of e text strategies))))"
proof -
  have sel: "map (select_one e text) (map (search_one e) strategies) = selections_of e text strategies"
    by (simp add: selections_of_def)
  show ?thesis
    unfolding pipeline_def assms(1) await_Fulfilled andThen_Inr
      assms(2) read_text_valid [OF assms(3,4)] derive_ok [OF assms(5,6,7)]
      search_all_eq select_all_eq sel started_started calls_before_aggregation_def fst_conv
    by (simp only: append_assoc)
qed

subsection \<open>The gate\<close>

lemma gate_anonymous:
  "\<not> truthy userId \<Longrightarrow>
     gate e userId = ([], Inr (10, now_at_start e + 24 * 60 * 60 * 1000, 0))"
  by (simp add: gate_def continue_def)

lemma gate_rejects:
  "truthy userId \<Longrightarrow> ratelimit_limit e (the userId) = Fulfilled r \<Longrightarrow> \<not> success r \<Longrightarrow>
     gate e userId = ([RateLimit (the userId)], Inl (TooManyRequests429 (rr_limit r) (rr_reset r)))"
  by (simp add: gate_def await_Fulfilled andThen_Inr respond_def started_pair)

lemma gate_admits:
  "truthy userId \<Longrightarrow> ratelimit_limit e (the userId) = Fulfilled r \<Longrightarrow> success r \<Longrightarrow>
   currentUser e = Fulfilled user \<Longrightarrow> user_upsert e (the userId) user = Fulfilled () \<Longrightarrow>
     gate e userId = ([RateLimit (the userId), CurrentUser, UpsertUser (the userId) user],
                      Inr (rr_limit r, rr_reset r, rr_remaining r))"
  by (simp add: gate_def await_Fulfilled andThen_Inr continue_def started_pair)

lemma gate_calls:
  "list_all (\<lambda>c. \<not> spends_budget c \<and> \<not> is_create c) (fst (gate e userId))"
proof (cases "truthy userId")
  case False
  then show ?thesis by (simp add: gate_anonymous)
next
  case True
  show ?thesis
  proof (cases "ratelimit_limit e (the userId)")
    case Rejected
    with True show ?thesis
      by (simp add: gate_def await_Rejected andThen_Inl)
  next
    case (Fulfilled r)
    show ?thesis
    proof (cases "success r")
      case False
      with True Fulfilled show ?thesis by (simp add: gate_rejects)
    next
      case succ: True
      show ?thesis
      proof (cases "currentUser e")
        case Rejected
        with True Fulfilled succ show ?thesis
          by (simp add: gate_def await_Fulfilled await_Rejected andThen_Inr andThen_Inl started_pair)
      next
        case user: (Fulfilled user)
        show ?thesis
        proof (cases "user_upsert e (the userId) user")
          case Rejected
          with True Fulfilled succ user show ?thesis
            by (simp add: gate_def await_Fulfilled await_Rejected andThen_Inr andThen_Inl
                started_pair)
        next
          case (Fulfilled u)
          with True \<open>ratelimit_limit e (the userId) = Fulfilled r\<close> succ user show ?thesis
            by (simp add: gate_admits)
        qed
      qed
    qed
  qed
qed

subsection \<open>One selection\<close>

lemma gif_at_0: "gs \<noteq> [] \<Longrightarrow> gif_at gs 0 = Some (gs ! 0)"
  by (simp add: gif_at_def)

lemma select_one_empty:
  "sr_gifs r = [] \<Longrightarrow> selectedGif (select_one e text r) = None"
  by (simp add: select_one_def needs_selection_def)

lemma select_one_nonempty:
  "sr_gifs r \<noteq> [] \<Longrightarrow> selectedGif (select_one e text r) \<noteq> None"
  by (simp add: select_one_def needs_selection_def gif_at_0 split: settled.splits option.splits)

lemma selectedGif_None_iff:
  "selectedGif (select_one e text r) = None \<longleftrightarrow> sr_gifs r = []"
  using select_one_empty select_one_nonempty by blast

lemma sel_strategy_select_one: "sel_strategy (select_one e text r) = sr_strategy r"
  by (simp add: select_one_def split: settled.splits)

lemma sr_strategy_search_one: "sr_strategy (search_one e s) = s"
  by (simp add: search_one_def split: FetchResult.splits)

lemma successful_selections_of:
  "successful (selections_of e text strategies) =
     map (\<lambda>s. select_one e text (search_one e s))
       (filter (\<lambda>s. sr_gifs (search_one e s) \<noteq> []) strategies)"
  by (induction strategies) (simp_all add: successful_def selections_of_def selectedGif_None_iff)

lemma no_successful_iff:
  "length (successful (selections_of e text strategies)) = 0 \<longleftrightarrow>
     (\<forall>s \<in> set strategies. sr_gifs (search_one e s) = [])"
  by (simp add: successful_selections_of filter_empty_conv)

lemma successful_have_gif: "s \<in> set (successful sels) \<Longrightarrow> selectedGif s \<noteq> None"
  by (simp add: successful_def)

subsection \<open>Rows and result entries of successful selections\<close>

lemma those_map_total:
  "\<forall>x \<in> set xs. f x \<noteq> None \<Longrightarrow> those (map f xs) = Some (List.map_filter f xs)"
  by (induction xs) (auto simp: List.map_filter_simps)

lemma map_filter_total:
  "\<forall>x \<in> set xs. f x \<noteq> None \<Longrightarrow> List.map_filter f xs = map (\<lambda>x. the (f x)) xs"
  by (induction xs) (auto simp: List.map_filter_simps)

lemma gif_result_None: "gif_result s = None \<longleftrightarrow> selectedGif s = None"
  by (simp add: gif_result_def split: option.splits)

lemma generation_data_None: "generation_data u t g s = None \<longleftrightarrow> selectedGif s = None"
  by (simp add: generation_data_def split: option.splits)

lemma build_response_outcome:
  assumes "\<forall>s \<in> set sels. selectedGif s \<noteq> None"
  shows "build_response userId lim sels =
     ([], Inl (if truthy userId \<and> \<not> date_in_range (fst (snd lim)) then failed
               else Ok200 (response_data userId lim sels)))"
proof -
  have "those (map gif_result sels) = Some (List.map_filter gif_result sels)"
    by (rule those_map_total) (simp add: gif_result_None assms)
  then show ?thesis
    by (simp add: build_response_def response_data_def respond_def)
qed

lemma r_perspective_gif_result:
  "selectedGif s \<noteq> None \<Longrightarrow> r_perspective (the (gif_result s)) = perspective (sel_strategy s)"
  by (auto simp: gif_result_def)

lemma results_perspectives:
  assumes "\<forall>s \<in> set sels. selectedGif s \<noteq> None"
  shows "map r_perspective (results (response_data userId lim sels)) =
           map (\<lambda>s. perspective (sel_strategy s)) sels"
proof -
  have "List.map_filter gif_result sels = map (\<lambda>s. the (gif_result s)) sels"
    by (rule map_filter_total) (simp add: gif_result_None assms)
  then show ?thesis
    using assms by (simp add: response_data_def r_perspective_gif_result)
qed

subsection \<open>The persistence step\<close>

lemma persist_anonymous: "\<not> truthy userId \<Longrightarrow> persist e userId text sels = ([], Inr ())"
  by (simp add: persist_def continue_def)

lemma persist_no_profile:
  "truthy userId \<Longrightarrow> user_findUnique e (the userId) = Fulfilled None \<Longrightarrow>
     persist e userId text sels = ([FindUser (the userId)], Inr ())"
  by (simp add: persist_def await_Fulfilled andThen_Inr continue_def started_pair)


lemma persist_writes:
  assumes "truthy userId" and "user_findUnique e (the userId) = Fulfilled (Some dbUserId)"
    and "\<forall>s \<in> set sels. selectedGif s \<noteq> None"
  shows "persist e userId text sels =
     (FindUser (the userId) # map CreateGeneration (generation_rows e dbUserId text sels),
      if Rejected \<in> generation_create e ` set (generation_rows e dbUserId text sels)
      then Inl failed else Inr ())"
proof -
  let ?gid = "make_generationGroupId (date_now e) (math_random e)"
  let ?rows = "generation_rows e dbUserId text sels"
  have rows: "those (map (generation_data dbUserId text ?gid) sels) = Some ?rows"
    unfolding generation_rows_def
    by (rule those_map_total) (simp add: generation_data_None assms(3))
  have unfold: "persist e userId text sels =
      started [FindUser (the userId)]
        (andThen (started (map CreateGeneration ?rows)
                    (await_all (create_settles_at e) (map (generation_create e) ?rows)))
           (\<lambda>_. continue ()))"
    by (simp add: persist_def assms(1,2) await_Fulfilled andThen_Inr rows Let_def)
  show ?thesis
  proof (cases "Rejected \<in> generation_create e ` set ?rows")
    case True
    then have "Rejected \<in> set (map (generation_create e) ?rows)" by simp
    then have "await_all (create_settles_at e) (map (generation_create e) ?rows) = ([], Inl failed)"
      by (simp only: await_all_rejected respond_def)
    with True show ?thesis
      unfolding unfold by (simp add: started_pair andThen_Inl)
  next
    case False
    then have "Rejected \<notin> set (map (generation_create e) ?rows)" by simp
    from unit_promises [OF this]
    obtain us where "map (generation_create e) ?rows = map Fulfilled us" by blast
    then have "await_all (create_settles_at e) (map (generation_create e) ?rows) = ([], Inr us)"
      by (simp only: await_all_fulfilled continue_def)
    with False show ?thesis
      unfolding unfold by (simp add: started_pair andThen_Inr continue_def)
  qed
qed

subsection \<open>Outcome and trace of the handler\<close>

lemma POST_of_pipeline: "pipeline e = (cs, Inl r) \<Longrightarrow> POST e = (r, cs)"
  by (simp add: POST_def)

lemma persisted_no_create: "list_all (\<lambda>c. \<not> is_create c) cs \<Longrightarrow> persisted e cs = []"
proof (induction cs)
  case Nil
  then show ?case by (simp add: persisted_def)
next
  case (Cons c cs)
  then show ?case by (cases c) (simp_all add: persisted_def)
qed

lemma POST_quota_rejected:
  assumes "auth e = Fulfilled (Some uid)" and "uid \<noteq> []"
    and "ratelimit_limit e uid = Fulfilled r" and "\<not> success r"
  shows "POST e = (TooManyRequests429 (rr_limit r) (rr_reset r), [Auth, RateLimit uid])"
proof -
  have t: "truthy (Some uid)" using assms(2) by (simp add: truthy_def)
  have g: "gate e (Some uid) =
      ([RateLimit uid], Inl (TooManyRequests429 (rr_limit r) (rr_reset r)))"
    using gate_rejects [OF t] assms(3,4) by simp
  have "pipeline e = ([Auth, RateLimit uid], Inl (TooManyRequests429 (rr_limit r) (rr_reset r)))"
    unfolding pipeline_def assms(1) await_Fulfilled andThen_Inr g andThen_Inl started_pair
    by simp
  then show ?thesis
    by (rule POST_of_pipeline)
qed



subsection \<open>Quota rejection\<close>

text \<open>
  C8. When the rate limiter rejects an identified caller, the handler answers 429 with the
  limit, \<^verbatim>\<open>remaining: 0\<close> and the reset time; the only calls it has started are the identity
  check and the rate-limit check, so no reasoning call, no search call and no write of a
  generation row happens.
\<close>

theorem quota_rejection_stops_request:
  assumes "auth e = Fulfilled (Some uid)" and "uid \<noteq> []"
    and "ratelimit_limit e uid = Fulfilled r" and "\<not> success r"
  shows "POST e = (TooManyRequests429 (rr_limit r) (rr_reset r), [Auth, RateLimit uid])
       \<and> list_all (\<lambda>c. \<not> spends_budget c \<and> \<not> is_create c) (snd (POST e))
       \<and> persisted e (snd (POST e)) = []"
  unfolding POST_quota_rejected [OF assms] by (simp add: persisted_def)

theorem quota_rejection_stops_request_witness:
  "auth (sample_env\<lparr>ratelimit_limit := (\<lambda>_. Fulfilled \<lparr> success = False, rr_limit = 10,
       rr_remaining = 0, rr_reset = 1764409443000 \<rparr>)\<rparr>) = Fulfilled (Some ''user_1'')
   \<and> ''user_1'' \<noteq> []
   \<and> \<not> success \<lparr> success = False, rr_limit = 10, rr_remaining = 0, rr_reset = 1764409443000 \<rparr>
   \<and> POST (sample_env\<lparr>ratelimit_limit := (\<lambda>_. Fulfilled \<lparr> success = False, rr_limit = 10,
       rr_remaining = 0, rr_reset = 1764409443000 \<rparr>)\<rparr>)
      = (TooManyRequests429 10 1764409443000, [Auth, RateLimit ''user_1''])"
  using quota_rejection_stops_request
    [of "sample_env\<lparr>ratelimit_limit := (\<lambda>_. Fulfilled \<lparr> success = False, rr_limit = 10,
           rr_remaining = 0, rr_reset = 1764409443000 \<rparr>)\<rparr>" "''user_1''"
        "\<lparr> success = False, rr_limit = 10, rr_remaining = 0, rr_reset = 1764409443000 \<rparr>"]
  by (simp add: sample_env_def)

subsection \<open>Invalid text\<close>




subsection \<open>After the strategies are derived\<close>

lemma calls_before_aggregation_clean:
  "list_all (\<lambda>c. \<not> is_create c) (calls_before_aggregation e userId text strategies)"
proof -
  have "list_all (\<lambda>c. \<not> is_create c) (fst (gate e userId))"
    using gate_calls [of e userId] by (simp add: list_all_iff)
  then show ?thesis
    by (simp add: calls_before_aggregation_def list_all_iff image_iff) auto
qed

lemma persisted_append: "persisted e (cs @ ds) = persisted e cs @ persisted e ds"
  by (simp add: persisted_def)

lemma persisted_creates:
  "persisted e (map CreateGeneration rows) =
     filter (\<lambda>d. generation_create e d = Fulfilled ()) rows"
  by (induction rows) (simp_all add: persisted_def)

lemma persisted_skip: "\<not> is_create c \<Longrightarrow> persisted e (c # cs) = persisted e cs"
  by (cases c) (simp_all add: persisted_def)

lemma length_generation_rows:
  "\<forall>s \<in> set sels. selectedGif s \<noteq> None \<Longrightarrow>
     length (generation_rows e dbUserId t sels) = length sels"
  by (simp add: generation_rows_def map_filter_total generation_data_None)

lemma POST_nothing_found:
  assumes "auth e = Fulfilled userId"
    and "gate e userId = (gcalls, Inr lim)"
    and "request_json e = Fulfilled (JsString text)" and "text \<noteq> []"
    and "deriveStrategies e text = Fulfilled strategies" and "strategiesSchema strategies"
    and "truthy (GIPHY_API_KEY e)"
    and "length (successful (selections_of e text strategies)) = 0"
  shows "POST e = (NotFound404, calls_before_aggregation e userId text strategies)"
proof -
  have "pipeline e = (calls_before_aggregation e userId text strategies, Inl NotFound404)"
    unfolding pipeline_reaches_aggregation [OF assms(1-7)]
    using assms(8) by (simp add: respond_def started_pair)
  then show ?thesis by (rule POST_of_pipeline)
qed

lemma POST_after_persist:
  assumes "auth e = Fulfilled userId"
    and "gate e userId = (gcalls, Inr lim)"
    and "request_json e = Fulfilled (JsString text)" and "text \<noteq> []"
    and "deriveStrategies e text = Fulfilled strategies" and "strategiesSchema strategies"
    and "truthy (GIPHY_API_KEY e)"
    and "length (successful (selections_of e text strategies)) \<noteq> 0"
    and "persist e userId text (successful (selections_of e text strategies)) = (pcalls, res)"
  shows "POST e =
     (case res of
        Inl r \<Rightarrow> r
      | Inr _ \<Rightarrow>
          if truthy userId \<and> \<not> date_in_range (fst (snd lim)) then failed
          else Ok200 (response_data userId lim (successful (selections_of e text strategies))),
      calls_before_aggregation e userId text strategies @ pcalls)"
proof -
  let ?sels = "successful (selections_of e text strategies)"
  let ?built = "if truthy userId \<and> \<not> date_in_range (fst (snd lim)) then failed
                else Ok200 (response_data userId lim ?sels)"
  have ne: "?sels \<noteq> []" using assms(8) by simp
  have b: "build_response userId lim ?sels = ([], Inl ?built)"
    by (rule build_response_outcome) (simp add: successful_have_gif)
  have "pipeline e =
      (calls_before_aggregation e userId text strategies @ pcalls,
       Inl (case res of Inl r \<Rightarrow> r | Inr _ \<Rightarrow> ?built))"
    unfolding pipeline_reaches_aggregation [OF assms(1-7)]
    using ne by (cases res) (simp_all add: assms(9) andThen_Inl andThen_Inr b started_pair)
  then show ?thesis by (rule POST_of_pipeline)
qed

lemma POST_writes:
  assumes "auth e = Fulfilled (Some uid)" and "uid \<noteq> []"
    and "gate e (Some uid) = (gcalls, Inr lim)"
    and "request_json e = Fulfilled (JsString text)" and "text \<noteq> []"
    and "deriveStrategies e text = Fulfilled strategies" and "strategiesSchema strategies"
    and "truthy (GIPHY_API_KEY e)"
    and "successful (selections_of e text strategies) = sels" and "sels \<noteq> []"
    and "user_findUnique e uid = Fulfilled (Some dbUserId)"
    and "generation_rows e dbUserId text sels = rows"
  shows "fst (POST e) = (if Rejected \<in> generation_create e ` set rows then failed
                         else if date_in_range (fst (snd lim))
                           then Ok200 (response_data (Some uid) lim sels) else failed)"
    and "persisted e (snd (POST e)) = filter (\<lambda>d. generation_create e d = Fulfilled ()) rows"
    and "length rows = length sels"
proof -
  have t: "truthy (Some uid)" using assms(2) by (simp add: truthy_def)
  have chosen: "\<forall>s \<in> set sels. selectedGif s \<noteq> None"
    using assms(9) successful_have_gif by blast
  have ne: "length (successful (selections_of e text strategies)) \<noteq> 0"
    using assms(9,10) by simp
  have "persist e (Some uid) text sels =
     (FindUser (the (Some uid)) # map CreateGeneration (generation_rows e dbUserId text sels),
      if Rejected \<in> generation_create e ` set (generation_rows e dbUserId text sels)
      then Inl failed else Inr ())"
    by (rule persist_writes [OF t _ chosen]) (simp add: assms(11))
  then have p: "persist e (Some uid) text (successful (selections_of e text strategies)) =
     (FindUser uid # map CreateGeneration rows,
      if Rejected \<in> generation_create e ` set rows then Inl failed else Inr ())"
    by (simp add: assms(9,12))
  note post = POST_after_persist [OF assms(1,3,4,5,6,7,8) ne p]
  have clean: "persisted e (calls_before_aggregation e (Some uid) text strategies) = []"
    by (rule persisted_no_create) (rule calls_before_aggregation_clean)
  show "fst (POST e) = (if Rejected \<in> generation_create e ` set rows then failed
                         else if date_in_range (fst (snd lim))
                           then Ok200 (response_data (Some uid) lim sels) else failed)"
    unfolding post by (simp add: assms(9) t)
  show "persisted e (snd (POST e)) = filter (\<lambda>d. generation_create e d = Fulfilled ()) rows"
    unfolding post
    by (simp add: persisted_append clean persisted_skip persisted_creates)
  show "length rows = length sels"
    unfolding assms(12) [symmetric] by (rule length_generation_rows [OF chosen])
qed

subsection \<open>The sample request\<close>

lemma sample_schema: "strategiesSchema [strategy_e, strategy_l, strategy_s]"
  by (simp add: strategiesSchema_def strategy_e_def strategy_l_def strategy_s_def)

lemma sample_queries:
  "searchQuery strategy_e = ''relieved''"
  "searchQuery strategy_l = ''typing fast code''"
  "searchQuery strategy_s = ''this is fine''"
  by (simp_all add: searchQuery_def truthy_def strategy_e_def strategy_l_def strategy_s_def)

lemma sample_gate_of:
  assumes "ratelimit_limit e = ratelimit_limit sample_env"
    and "currentUser e = currentUser sample_env" and "user_upsert e = user_upsert sample_env"
  shows "gate e (Some ''user_1'') =
     ([RateLimit ''user_1'', CurrentUser, UpsertUser ''user_1'' None], Inr (10, 1764409443000, 2))"
  by (simp add: gate_admits [where r = "\<lparr> success = True, rr_limit = 10, rr_remaining = 2,
        rr_reset = 1764409443000 \<rparr>" and user = None] truthy_def assms sample_env_def)

lemma sample_searches:
  assumes "giphy e = giphy sample_env"
  shows "search_one e strategy_e
           = \<lparr> sr_strategy = strategy_e, sr_gifs = [gif_1, gif_2], sr_error = None \<rparr>"
    and "search_one e strategy_l
           = \<lparr> sr_strategy = strategy_l, sr_gifs = [], sr_error = Some ''Search failed'' \<rparr>"
    and "search_one e strategy_s
           = \<lparr> sr_strategy = strategy_s, sr_gifs = [], sr_error = None \<rparr>"
  by (simp_all add: search_one_def sample_queries assms sample_env_def)


lemma sample_selections:
  assumes "giphy e = giphy sample_env" and "selectGif e = selectGif sample_env"
  shows "selections_of e t [strategy_e, strategy_l, strategy_s] =
     [\<lparr> sel_strategy = strategy_e, selectedGif = Some gif_2,
        sel_reasoning = ''matches the mood'', sel_error = False \<rparr>,
      \<lparr> sel_strategy = strategy_l, selectedGif = None,
        sel_reasoning = ''Search failed'', sel_error = True \<rparr>,
      \<lparr> sel_strategy = strategy_s, selectedGif = None,
        sel_reasoning = ''No GIFs found for this perspective'', sel_error = True \<rparr>]"
proof -
  have sg: "selectGif e t strategy_e (gifOptions [gif_1, gif_2]) = Fulfilled (1, ''matches the mood'')"
    by (simp add: assms(2) sample_env_def)
  show ?thesis
    by (simp add: selections_of_def sample_searches [OF assms(1)] select_one_def
        needs_selection_def truthy_def sg validated_def selectionSchema_def MAX_SAFE_INTEGER_def
        gif_at_def)
qed

lemma sample_successful:
  assumes "giphy e = giphy sample_env" and "selectGif e = selectGif sample_env"
  shows "successful (selections_of e t [strategy_e, strategy_l, strategy_s]) =
     [\<lparr> sel_strategy = strategy_e, selectedGif = Some gif_2,
        sel_reasoning = ''matches the mood'', sel_error = False \<rparr>]"
  by (simp add: sample_selections [OF assms] successful_def)

subsection \<open>No successful selection\<close>

text \<open>
  C6. When the run reaches the aggregation (the gate lets the caller through, the text is a
  non-empty string, the strategies validate and the search key is configured) and no
  selection has a chosen candidate, which is the case exactly when every branch has an
  empty candidate list, the handler answers 404 and no generation row is written: no write is
  started at all.
\<close>

theorem nothing_found_nothing_persisted:
  assumes "auth e = Fulfilled userId"
    and "gate e userId = (gcalls, Inr lim)"
    and "request_json e = Fulfilled (JsString text)" and "text \<noteq> []"
    and "deriveStrategies e text = Fulfilled strategies" and "strategiesSchema strategies"
    and "truthy (GIPHY_API_KEY e)"
    and "length (successful (selections_of e text strategies)) = 0"
  shows "fst (POST e) = NotFound404
       \<and> list_all (\<lambda>c. \<not> is_create c) (snd (POST e))
       \<and> persisted e (snd (POST e)) = []
       \<and> (length (successful (selections_of e text strategies)) = 0
            \<longleftrightarrow> (\<forall>s \<in> set strategies. sr_gifs (search_one e s) = []))"
proof -
  have empty: "\<forall>s \<in> set strategies. sr_gifs (search_one e s) = []"
    using assms(8) by (simp only: no_successful_iff)
  have clean: "list_all (\<lambda>c. \<not> is_create c) (calls_before_aggregation e userId text strategies)"
    by (rule calls_before_aggregation_clean)
  from empty clean show ?thesis
    unfolding POST_nothing_found [OF assms] no_successful_iff
    by (simp add: persisted_no_create)
qed


theorem nothing_found_nothing_persisted_witness:
  "auth (sample_env\<lparr>giphy := (\<lambda>_. OkBody (Some []))\<rparr>) = Fulfilled (Some ''user_1'')
   \<and> gate (sample_env\<lparr>giphy := (\<lambda>_. OkBody (Some []))\<rparr>) (Some ''user_1'')
       = ([RateLimit ''user_1'', CurrentUser, UpsertUser ''user_1'' None],
          Inr (10, 1764409443000, 2))
   \<and> strategiesSchema [strategy_e, strategy_l, strategy_s]
   \<and> truthy (GIPHY_API_KEY (sample_env\<lparr>giphy := (\<lambda>_. OkBody (Some []))\<rparr>))
   \<and> length (successful (selections_of (sample_env\<lparr>giphy := (\<lambda>_. OkBody (Some []))\<rparr>)
         ''my code finally compiled'' [strategy_e, strategy_l, strategy_s])) = 0
   \<and> fst (POST (sample_env\<lparr>giphy := (\<lambda>_. OkBody (Some []))\<rparr>)) = NotFound404
   \<and> persisted (sample_env\<lparr>giphy := (\<lambda>_. OkBody (Some []))\<rparr>)
        (snd (POST (sample_env\<lparr>giphy := (\<lambda>_. OkBody (Some []))\<rparr>))) = []"
proof -
  let ?e = "sample_env\<lparr>giphy := (\<lambda>_. OkBody (Some []))\<rparr>"
  let ?t = "''my code finally compiled''"
  let ?ss = "[strategy_e, strategy_l, strategy_s]"
  have a: "auth ?e = Fulfilled (Some ''user_1'')" by (simp add: sample_env_def)
  have g: "gate ?e (Some ''user_1'')
       = ([RateLimit ''user_1'', CurrentUser, UpsertUser ''user_1'' None],
          Inr (10, 1764409443000, 2))"
    by (rule sample_gate_of) simp_all
  have j: "request_json ?e = Fulfilled (JsString ?t)" by (simp add: sample_env_def)
  have n: "?t \<noteq> []" by simp
  have d: "deriveStrategies ?e ?t = Fulfilled ?ss" by (simp add: sample_env_def)
  have k: "truthy (GIPHY_API_KEY ?e)" by (simp add: sample_env_def truthy_def)
  have z: "length (successful (selections_of ?e ?t ?ss)) = 0"
    unfolding no_successful_iff by (simp add: search_one_def)
  from nothing_found_nothing_persisted [OF a g j n d sample_schema k z] a g sample_schema k z
  show ?thesis by simp
qed

subsection \<open>Partial results\<close>


lemma successful_perspectives:
  "map (\<lambda>s. perspective (sel_strategy s)) (successful (selections_of e t strategies)) =
     map perspective (filter (\<lambda>s. sr_gifs (search_one e s) \<noteq> []) strategies)"
  by (simp add: successful_selections_of comp_def sel_strategy_select_one sr_strategy_search_one)





subsection \<open>A failing write\<close>

text \<open>
  C1 as stated fails: in the sample request with one successful selection, when the store
  rejects the write of the generation row the handler answers with the generic 500 error and
  the caller does not receive the result set.
\<close>

theorem persistence_failure_counterexample:
  "successful (selections_of (sample_env\<lparr>generation_create := (\<lambda>_. Rejected)\<rparr>)
       ''my code finally compiled'' [strategy_e, strategy_l, strategy_s])
     = [\<lparr> sel_strategy = strategy_e, selectedGif = Some gif_2,
          sel_reasoning = ''matches the mood'', sel_error = False \<rparr>]
   \<and> fst (POST (sample_env\<lparr>generation_create := (\<lambda>_. Rejected)\<rparr>))
       = ServerError500 ''Failed to generate GIF recommendation''"
proof -
  let ?e = "sample_env\<lparr>generation_create := (\<lambda>_. Rejected)\<rparr>"
  let ?t = "''my code finally compiled''"
  let ?ss = "[strategy_e, strategy_l, strategy_s]"
  let ?sels = "[\<lparr> sel_strategy = strategy_e, selectedGif = Some gif_2,
        sel_reasoning = ''matches the mood'', sel_error = False \<rparr>]"
  have a: "auth ?e = Fulfilled (Some ''user_1'')" by (simp add: sample_env_def)
  have g: "gate ?e (Some ''user_1'')
       = ([RateLimit ''user_1'', CurrentUser, UpsertUser ''user_1'' None],
          Inr (10, 1764409443000, 2))"
    by (rule sample_gate_of) simp_all
  have j: "request_json ?e = Fulfilled (JsString ?t)" by (simp add: sample_env_def)
  have n: "?t \<noteq> []" by simp
  have d: "deriveStrategies ?e ?t = Fulfilled ?ss" by (simp add: sample_env_def)
  have k: "truthy (GIPHY_API_KEY ?e)" by (simp add: sample_env_def truthy_def)
  have s: "successful (selections_of ?e ?t ?ss) = ?sels"
    by (simp add: sample_successful)
  have ne: "length (successful (selections_of ?e ?t ?ss)) \<noteq> 0"
    unfolding s by simp
  have w: "persist ?e (Some ''user_1'') ?t ?sels =
     (FindUser (the (Some ''user_1'')) # map CreateGeneration (generation_rows ?e ''db_1'' ?t ?sels),
      if Rejected \<in> generation_create ?e ` set (generation_rows ?e ''db_1'' ?t ?sels)
      then Inl failed else Inr ())"
    by (rule persist_writes) (simp_all add: truthy_def sample_env_def)
  have "length (generation_rows ?e ''db_1'' ?t ?sels) = 1"
    by (simp add: length_generation_rows)
  then obtain r rs where "generation_rows ?e ''db_1'' ?t ?sels = r # rs"
    by (cases "generation_rows ?e ''db_1'' ?t ?sels") simp_all
  then have "Rejected \<in> generation_create ?e ` set (generation_rows ?e ''db_1'' ?t ?sels)"
    by simp
  with w have p: "persist ?e (Some ''user_1'') ?t (successful (selections_of ?e ?t ?ss)) =
     (FindUser (the (Some ''user_1'')) # map CreateGeneration (generation_rows ?e ''db_1'' ?t ?sels),
      Inl failed)"
    unfolding s by simp
  from POST_after_persist [OF a g j n d sample_schema k ne p] s
  show ?thesis by (simp add: failed_def)
qed

text \<open>
  C1 (as the code has it). When the run reaches the aggregation with at least one
  successful selection and the caller is identified and has a profile row, one create per
  successful selection is started. If the store rejects any of them, the handler answers with
  the generic 500 error instead of the result set, and the rows whose create was fulfilled
  stay in the store; if none is rejected and the reset instant of the rate limit can be
  rendered as a date, the handler answers 200 with the result set, and all rows are stored.
\<close>

theorem persistence_failure_fails_request:
  assumes "auth e = Fulfilled (Some uid)" and "uid \<noteq> []"
    and "gate e (Some uid) = (gcalls, Inr lim)"
    and "request_json e = Fulfilled (JsString text)" and "text \<noteq> []"
    and "deriveStrategies e text = Fulfilled strategies" and "strategiesSchema strategies"
    and "truthy (GIPHY_API_KEY e)"
    and "successful (selections_of e text strategies) = sels" and "sels \<noteq> []"
    and "user_findUnique e uid = Fulfilled (Some dbUserId)"
    and "generation_rows e dbUserId text sels = rows"
  shows "(Rejected \<in> generation_create e ` set rows \<longrightarrow>
            fst (POST e) = ServerError500 ''Failed to generate GIF recommendation'')
       \<and> (Rejected \<notin> generation_create e ` set rows \<and> date_in_range (fst (snd lim)) \<longrightarrow>
            fst (POST e) = Ok200 (response_data (Some uid) lim sels))
       \<and> persisted e (snd (POST e)) = filter (\<lambda>d. generation_create e d = Fulfilled ()) rows
       \<and> length rows = length sels"
proof -
  note w = POST_writes [OF assms]
  from w show ?thesis
    by (simp add: failed_def)
qed

theorem persistence_failure_fails_request_witness:
  "auth sample_env = Fulfilled (Some ''user_1'') \<and> ''user_1'' \<noteq> []
   \<and> strategiesSchema [strategy_e, strategy_l, strategy_s]
   \<and> truthy (GIPHY_API_KEY sample_env)
   \<and> user_findUnique sample_env ''user_1'' = Fulfilled (Some ''db_1'')
   \<and> Rejected \<in> generation_create (sample_env\<lparr>generation_create := (\<lambda>_. Rejected)\<rparr>) `
        set (generation_rows (sample_env\<lparr>generation_create := (\<lambda>_. Rejected)\<rparr>) ''db_1''
               ''my code finally compiled''
               [\<lparr> sel_strategy = strategy_e, selectedGif = Some gif_2,
                  sel_reasoning = ''matches the mood'', sel_error = False \<rparr>])
   \<and> fst (POST (sample_env\<lparr>generation_create := (\<lambda>_. Rejected)\<rparr>))
       = ServerError500 ''Failed to generate GIF recommendation''
   \<and> persisted (sample_env\<lparr>generation_create := (\<lambda>_. Rejected)\<rparr>)
        (snd (POST (sample_env\<lparr>generation_create := (\<lambda>_. Rejected)\<rparr>))) = []
   \<and> Rejected \<notin> generation_create sample_env `
        set (generation_rows sample_env ''db_1'' ''my code finally compiled''
               [\<lparr> sel_strategy = strategy_e, selectedGif = Some gif_2,
                  sel_reasoning = ''matches the mood'', sel_error = False \<rparr>])
   \<and> date_in_range (fst (snd (10 :: int, 1764409443000 :: int, 2 :: int)))
   \<and> fst (POST sample_env)
       = Ok200 (response_data (Some ''user_1'') (10, 1764409443000, 2)
                  [\<lparr> sel_strategy = strategy_e, selectedGif = Some gif_2,
                     sel_reasoning = ''matches the mood'', sel_error = False \<rparr>])
   \<and> length (persisted sample_env (snd (POST sample_env))) = 1"
proof -
  let ?bad = "sample_env\<lparr>generation_create := (\<lambda>_. Rejected)\<rparr>"
  let ?t = "''my code finally compiled''"
  let ?ss = "[strategy_e, strategy_l, strategy_s]"
  let ?sels = "[\<lparr> sel_strategy = strategy_e, selectedGif = Some gif_2,
        sel_reasoning = ''matches the mood'', sel_error = False \<rparr>]"
  have chosen: "\<forall>s \<in> set ?sels. selectedGif s \<noteq> None" by simp
  have a: "auth ?bad = Fulfilled (Some ''user_1'')" "auth sample_env = Fulfilled (Some ''user_1'')"
    by (simp_all add: sample_env_def)
  have u: "''user_1'' \<noteq> []" by simp
  have g: "gate ?bad (Some ''user_1'')
       = ([RateLimit ''user_1'', CurrentUser, UpsertUser ''user_1'' None],
          Inr (10, 1764409443000, 2))"
     "gate sample_env (Some ''user_1'')
       = ([RateLimit ''user_1'', CurrentUser, UpsertUser ''user_1'' None],
          Inr (10, 1764409443000, 2))"
    by (rule sample_gate_of; simp)+
  have j: "request_json ?bad = Fulfilled (JsString ?t)"
    "request_json sample_env = Fulfilled (JsString ?t)"
    by (simp_all add: sample_env_def)
  have n: "?t \<noteq> []" by simp
  have d: "deriveStrategies ?bad ?t = Fulfilled ?ss" "deriveStrategies sample_env ?t = Fulfilled ?ss"
    by (simp_all add: sample_env_def)
  have k: "truthy (GIPHY_API_KEY ?bad)" "truthy (GIPHY_API_KEY sample_env)"
    by (simp_all add: sample_env_def truthy_def)
  have s: "successful (selections_of ?bad ?t ?ss) = ?sels"
    "successful (selections_of sample_env ?t ?ss) = ?sels"
    by (simp_all add: sample_successful)
  have ne: "?sels \<noteq> []" by simp
  have f: "user_findUnique ?bad ''user_1'' = Fulfilled (Some ''db_1'')"
    "user_findUnique sample_env ''user_1'' = Fulfilled (Some ''db_1'')"
    by (simp_all add: sample_env_def)
  have l: "length (generation_rows ?bad ''db_1'' ?t ?sels) = 1"
    "length (generation_rows sample_env ''db_1'' ?t ?sels) = 1"
    by (simp_all add: length_generation_rows)
  from l(1) obtain r rs where "generation_rows ?bad ''db_1'' ?t ?sels = r # rs"
    by (cases "generation_rows ?bad ''db_1'' ?t ?sels") simp_all
  then have rej: "Rejected \<in> generation_create ?bad ` set (generation_rows ?bad ''db_1'' ?t ?sels)"
    by simp
  have all_rej: "filter (\<lambda>d. generation_create ?bad d = Fulfilled ())
                   (generation_rows ?bad ''db_1'' ?t ?sels) = []"
    by simp
  have ok: "Rejected \<notin> generation_create sample_env ` set (generation_rows sample_env ''db_1'' ?t ?sels)"
    by (auto simp: sample_env_def)
  have all_ok: "filter (\<lambda>d. generation_create sample_env d = Fulfilled ())
                   (generation_rows sample_env ''db_1'' ?t ?sels)
                = generation_rows sample_env ''db_1'' ?t ?sels"
    by (simp add: sample_env_def)
  note bad = persistence_failure_fails_request
      [OF a(1) u g(1) j(1) n d(1) sample_schema k(1) s(1) ne f(1) refl]
  note good = persistence_failure_fails_request
      [OF a(2) u g(2) j(2) n d(2) sample_schema k(2) s(2) ne f(2) refl]
  from bad rej have b1: "fst (POST ?bad) = ServerError500 ''Failed to generate GIF recommendation''"
    by blast
  from bad all_rej have b2: "persisted ?bad (snd (POST ?bad)) = []"
    by simp
  have dr: "date_in_range (fst (snd (10 :: int, 1764409443000 :: int, 2 :: int)))"
    by (simp add: date_in_range_def)
  from good ok dr have g1: "fst (POST sample_env)
       = Ok200 (response_data (Some ''user_1'') (10, 1764409443000, 2) ?sels)"
    by blast
  from good all_ok l(2) have g2: "length (persisted sample_env (snd (POST sample_env))) = 1"
    by simp
  from a(2) u sample_schema k(2) f(2) rej b1 b2 ok dr g1 g2 show ?thesis
    by (intro conjI)
qed

subsection \<open>Fallback of the selector\<close>

lemma select_one_call_fails:
  assumes "sr_gifs r \<noteq> []"
    and "validated selectionSchema (selectGif e t (sr_strategy r) (gifOptions (sr_gifs r))) = Rejected"
  shows "select_one e t r =
     \<lparr> sel_strategy = sr_strategy r, selectedGif = Some (sr_gifs r ! 0),
       sel_reasoning = ''AI selection failed, using top result'', sel_error = True \<rparr>"
  using assms by (simp add: select_one_def needs_selection_def gif_at_0)

lemma select_one_answered:
  assumes "sr_gifs r \<noteq> []"
    and "selectGif e t (sr_strategy r) (gifOptions (sr_gifs r)) = Fulfilled (i, why)"
    and "0 \<le> i" and "i \<le> MAX_SAFE_INTEGER"
  shows "select_one e t r =
     \<lparr> sel_strategy = sr_strategy r,
       selectedGif = Some (if i < int (length (sr_gifs r)) then sr_gifs r ! nat i
                           else sr_gifs r ! 0),
       sel_reasoning = why, sel_error = False \<rparr>"
  using assms
  by (simp add: select_one_def needs_selection_def validated_def selectionSchema_def gif_at_def)

text \<open>
  C2 as stated fails for an out-of-range index: with two candidates and the answer
  \<open>(5, ''matches the mood'')\<close> the selector takes the first candidate, but the selection is not
  marked as degraded and carries the reasoning of the service, not a fixed string.
\<close>

theorem selector_fallback_counterexample:
  "\<not> (5 :: int) < int (length [gif_1, gif_2])
   \<and> select_one (sample_env\<lparr>selectGif := (\<lambda>_ _ _. Fulfilled (5, ''matches the mood''))\<rparr>)
        ''my code finally compiled''
        \<lparr> sr_strategy = strategy_e, sr_gifs = [gif_1, gif_2], sr_error = None \<rparr>
     = \<lparr> sel_strategy = strategy_e, selectedGif = Some gif_1,
         sel_reasoning = ''matches the mood'', sel_error = False \<rparr>"
  using select_one_answered
    [of "\<lparr> sr_strategy = strategy_e, sr_gifs = [gif_1, gif_2], sr_error = None \<rparr>"
        "sample_env\<lparr>selectGif := (\<lambda>_ _ _. Fulfilled (5, ''matches the mood''))\<rparr>"
        "''my code finally compiled''" 5 "''matches the mood''"]
  by (simp add: MAX_SAFE_INTEGER_def)

text \<open>
  C2 (as the code has it). For a branch with at least one candidate: when the call of the
  reasoning service fails, or its answer does not validate because the index is negative or
  not a safe integer, the selector takes the first candidate, marks the selection as degraded
  and gives it the fixed reasoning \<^verbatim>\<open>AI selection failed, using top result\<close>. When the answer
  validates but its index is beyond the candidates, the selector takes the first candidate as
  well, but leaves the selection unmarked and keeps the reasoning of the service. A valid
  index within range selects that candidate.
\<close>

theorem selector_fallback:
  assumes "sr_gifs r \<noteq> []"
  shows "(selectGif e text (sr_strategy r) (gifOptions (sr_gifs r)) = Rejected
            \<or> (selectGif e text (sr_strategy r) (gifOptions (sr_gifs r)) = Fulfilled (i, why)
                \<and> (i < 0 \<or> MAX_SAFE_INTEGER < i)) \<longrightarrow>
            select_one e text r =
              \<lparr> sel_strategy = sr_strategy r, selectedGif = Some (sr_gifs r ! 0),
                sel_reasoning = ''AI selection failed, using top result'', sel_error = True \<rparr>)
       \<and> (selectGif e text (sr_strategy r) (gifOptions (sr_gifs r)) = Fulfilled (i, why)
            \<and> int (length (sr_gifs r)) \<le> i \<and> i \<le> MAX_SAFE_INTEGER \<longrightarrow>
            select_one e text r =
              \<lparr> sel_strategy = sr_strategy r, selectedGif = Some (sr_gifs r ! 0),
                sel_reasoning = why, sel_error = False \<rparr>)
       \<and> (selectGif e text (sr_strategy r) (gifOptions (sr_gifs r)) = Fulfilled (i, why)
            \<and> 0 \<le> i \<and> i < int (length (sr_gifs r)) \<and> i \<le> MAX_SAFE_INTEGER \<longrightarrow>
            select_one e text r =
              \<lparr> sel_strategy = sr_strategy r, selectedGif = Some (sr_gifs r ! nat i),
                sel_reasoning = why, sel_error = False \<rparr>)"
proof (intro conjI impI)
  assume "selectGif e text (sr_strategy r) (gifOptions (sr_gifs r)) = Rejected
            \<or> (selectGif e text (sr_strategy r) (gifOptions (sr_gifs r)) = Fulfilled (i, why)
                \<and> (i < 0 \<or> MAX_SAFE_INTEGER < i))"
  then have "validated selectionSchema
      (selectGif e text (sr_strategy r) (gifOptions (sr_gifs r))) = Rejected"
    by (auto simp: validated_def selectionSchema_def)
  from select_one_call_fails [OF assms this]
  show "select_one e text r =
              \<lparr> sel_strategy = sr_strategy r, selectedGif = Some (sr_gifs r ! 0),
                sel_reasoning = ''AI selection failed, using top result'', sel_error = True \<rparr>" .
next
  assume a: "selectGif e text (sr_strategy r) (gifOptions (sr_gifs r)) = Fulfilled (i, why)
            \<and> int (length (sr_gifs r)) \<le> i \<and> i \<le> MAX_SAFE_INTEGER"
  then have "0 \<le> i" and "i \<le> MAX_SAFE_INTEGER" by linarith+
  from select_one_answered [OF assms conjunct1 [OF a] this] a
  show "select_one e text r =
              \<lparr> sel_strategy = sr_strategy r, selectedGif = Some (sr_gifs r ! 0),
                sel_reasoning = why, sel_error = False \<rparr>"
    by simp
next
  assume a: "selectGif e text (sr_strategy r) (gifOptions (sr_gifs r)) = Fulfilled (i, why)
            \<and> 0 \<le> i \<and> i < int (length (sr_gifs r)) \<and> i \<le> MAX_SAFE_INTEGER"
  then have "0 \<le> i" and "i \<le> MAX_SAFE_INTEGER" by simp_all
  from select_one_answered [OF assms conjunct1 [OF a] this] a
  show "select_one e text r =
              \<lparr> sel_strategy = sr_strategy r, selectedGif = Some (sr_gifs r ! nat i),
                sel_reasoning = why, sel_error = False \<rparr>"
    by simp
qed

theorem selector_fallback_witness:
  "sr_gifs \<lparr> sr_strategy = strategy_e, sr_gifs = [gif_1, gif_2], sr_error = None \<rparr> \<noteq> []
   \<and> select_one (sample_env\<lparr>selectGif := (\<lambda>_ _ _. Rejected)\<rparr>) ''my code finally compiled''
        \<lparr> sr_strategy = strategy_e, sr_gifs = [gif_1, gif_2], sr_error = None \<rparr>
     = \<lparr> sel_strategy = strategy_e, selectedGif = Some gif_1,
         sel_reasoning = ''AI selection failed, using top result'', sel_error = True \<rparr>
   \<and> MAX_SAFE_INTEGER < 9007199254740992
   \<and> select_one (sample_env\<lparr>selectGif := (\<lambda>_ _ _. Fulfilled (9007199254740992, ''the last one''))\<rparr>)
        ''my code finally compiled''
        \<lparr> sr_strategy = strategy_e, sr_gifs = [gif_1, gif_2], sr_error = None \<rparr>
     = \<lparr> sel_strategy = strategy_e, selectedGif = Some gif_1,
         sel_reasoning = ''AI selection failed, using top result'', sel_error = True \<rparr>
   \<and> int (length [gif_1, gif_2]) \<le> 2 \<and> 2 \<le> MAX_SAFE_INTEGER
   \<and> select_one (sample_env\<lparr>selectGif := (\<lambda>_ _ _. Fulfilled (2, ''the third one''))\<rparr>)
        ''my code finally compiled''
        \<lparr> sr_strategy = strategy_e, sr_gifs = [gif_1, gif_2], sr_error = None \<rparr>
     = \<lparr> sel_strategy = strategy_e, selectedGif = Some gif_1,
         sel_reasoning = ''the third one'', sel_error = False \<rparr>
   \<and> (0 :: int) \<le> 1 \<and> 1 < int (length [gif_1, gif_2]) \<and> 1 \<le> MAX_SAFE_INTEGER
   \<and> select_one sample_env ''my code finally compiled''
        \<lparr> sr_strategy = strategy_e, sr_gifs = [gif_1, gif_2], sr_error = None \<rparr>
     = \<lparr> sel_strategy = strategy_e, selectedGif = Some gif_2,
         sel_reasoning = ''matches the mood'', sel_error = False \<rparr>"
  using selector_fallback
      [of "\<lparr> sr_strategy = strategy_e, sr_gifs = [gif_1, gif_2], sr_error = None \<rparr>"
          "sample_env\<lparr>selectGif := (\<lambda>_ _ _. Rejected)\<rparr>" "''my code finally compiled''" 0 "[]"]
    selector_fallback
      [of "\<lparr> sr_strategy = strategy_e, sr_gifs = [gif_1, gif_2], sr_error = None \<rparr>"
          "sample_env\<lparr>selectGif := (\<lambda>_ _ _. Fulfilled (9007199254740992, ''the last one''))\<rparr>"
          "''my code finally compiled''" 9007199254740992 "''the last one''"]
    selector_fallback
      [of "\<lparr> sr_strategy = strategy_e, sr_gifs = [gif_1, gif_2], sr_error = None \<rparr>"
          "sample_env\<lparr>selectGif := (\<lambda>_ _ _. Fulfilled (2, ''the third one''))\<rparr>"
          "''my code finally compiled''" 2 "''the third one''"]
    selector_fallback
      [of "\<lparr> sr_strategy = strategy_e, sr_gifs = [gif_1, gif_2], sr_error = None \<rparr>"
          sample_env "''my code finally compiled''" 1 "''matches the mood''"]
  by (simp add: sample_env_def MAX_SAFE_INTEGER_def)

subsection \<open>Group ids\<close>

lemma digit_char_inj:
  assumes "a < 10" and "b < 10" and "digit_char a = digit_char b"
  shows "a = b"
proof -
  have a: "a \<in> {0, 1, 2, 3, 4, 5, 6, 7, 8, 9}" using assms(1) by auto
  have b: "b \<in> {0, 1, 2, 3, 4, 5, 6, 7, 8, 9}" using assms(2) by auto
  from a b assms(3) show ?thesis
    by (auto simp: digit_char_def)
qed

lemma digit_char_not_underscore: "d < 10 \<Longrightarrow> digit_char d \<noteq> CHR ''_''"
proof -
  assume "d < 10"
  then have "d \<in> {0, 1, 2, 3, 4, 5, 6, 7, 8, 9}" by auto
  then show ?thesis by (auto simp: digit_char_def)
qed

lemma show_nat_small: "n < 10 \<Longrightarrow> show_nat n = [digit_char n]"
  by (simp add: show_nat.simps)

lemma show_nat_large:
  "\<not> n < 10 \<Longrightarrow> show_nat n = show_nat (n div 10) @ [digit_char (n mod 10)]"
  by (subst show_nat.simps) simp

lemma show_nat_not_Nil: "show_nat n \<noteq> []"
  by (cases "n < 10") (simp_all add: show_nat_small show_nat_large)

lemma show_nat_no_underscore: "CHR ''_'' \<notin> set (show_nat n)"
proof (induction n rule: show_nat.induct)
  case (1 n)
  show ?case
  proof (cases "n < 10")
    case True
    then show ?thesis
      using digit_char_not_underscore [of n] by (auto simp: show_nat_small)
  next
    case False
    have "n mod 10 < 10" by simp
    from digit_char_not_underscore [OF this] 1 [OF False] False show ?thesis
      by (auto simp: show_nat_large)
  qed
qed

lemma show_nat_inj: "show_nat m = show_nat n \<Longrightarrow> m = n"
proof (induction m arbitrary: n rule: show_nat.induct)
  case (1 m)
  show ?case
  proof (cases "m < 10")
    case m: True
    show ?thesis
    proof (cases "n < 10")
      case True
      with m "1.prems" show ?thesis
        by (auto simp: show_nat_small dest: digit_char_inj)
    next
      case False
      with m "1.prems" show_nat_not_Nil [of "n div 10"] show ?thesis
        by (simp add: show_nat_small show_nat_large)
    qed
  next
    case m: False
    show ?thesis
    proof (cases "n < 10")
      case True
      with m "1.prems" show_nat_not_Nil [of "m div 10"] show ?thesis
        by (simp add: show_nat_small show_nat_large)
    next
      case False
      with m "1.prems" have eq: "show_nat (m div 10) = show_nat (n div 10)"
        and d: "digit_char (m mod 10) = digit_char (n mod 10)"
        by (simp_all add: show_nat_large)
      from "1.IH" [OF m eq] have q: "m div 10 = n div 10" .
      have "m mod 10 = n mod 10"
        by (rule digit_char_inj [OF _ _ d]) simp_all
      with q show ?thesis
        by (metis div_mult_mod_eq)
    qed
  qed
qed

lemma split_at_first:
  assumes "c \<notin> set xs" and "c \<notin> set xs'" and "xs @ c # ys = xs' @ c # ys'"
  shows "xs = xs' \<and> ys = ys'"
  using assms
proof (induction xs arbitrary: xs')
  case Nil
  then show ?case by (cases xs') auto
next
  case (Cons x xs)
  then show ?case by (cases xs') auto
qed

lemma make_generationGroupId_eq_iff:
  "make_generationGroupId now rnd = make_generationGroupId now' rnd' \<longleftrightarrow>
     now = now' \<and> substr_2_9 rnd = substr_2_9 rnd'"
proof
  assume "make_generationGroupId now rnd = make_generationGroupId now' rnd'"
  then have "show_nat now @ CHR ''_'' # substr_2_9 rnd = show_nat now' @ CHR ''_'' # substr_2_9 rnd'"
    by (simp add: make_generationGroupId_def)
  from split_at_first [OF show_nat_no_underscore show_nat_no_underscore this]
  show "now = now' \<and> substr_2_9 rnd = substr_2_9 rnd'"
    by (auto dest: show_nat_inj)
next
  assume "now = now' \<and> substr_2_9 rnd = substr_2_9 rnd'"
  then show "make_generationGroupId now rnd = make_generationGroupId now' rnd'"
    by (simp add: make_generationGroupId_def)
qed

lemma generation_rows_group:
  "d \<in> set (generation_rows e u t sels) \<Longrightarrow>
     d_generationGroupId d = make_generationGroupId (date_now e) (math_random e)"
  by (auto simp: generation_rows_def List.map_filter_def generation_data_def split: option.splits)

lemma show_nat_sample: "show_nat 1764323044000 = ''1764323044000''"
  by (simp add: show_nat.simps digit_char_def)

lemma sample_rows:
  assumes "date_now e = date_now sample_env"
    and "substr_2_9 (math_random e) = substr_2_9 (math_random sample_env)"
  shows "generation_rows e ''db_1'' t
           [\<lparr> sel_strategy = strategy_e, selectedGif = Some gif_2,
              sel_reasoning = ''matches the mood'', sel_error = False \<rparr>]
         = [\<lparr> d_userId = ''db_1'', d_inputText = t, d_keywords = [''relieved''], d_topic = None,
               d_reasoning = ''matches the mood'',
               d_gifUrl = ''https://media.giphy.com/media/2/giphy.gif'', d_gifTitle = ''Finally'',
               d_perspective = ''emotional'',
               d_generationGroupId = ''group_1764323044000_4fzyo82mv'' \<rparr>]"
proof -
  have "make_generationGroupId (date_now e) (math_random e) = ''group_1764323044000_4fzyo82mv''"
    unfolding make_generationGroupId_def assms
    by (simp add: sample_env_def show_nat_sample substr_2_9_def)
  then show ?thesis
    by (simp add: generation_rows_def List.map_filter_simps generation_data_def
        strategy_e_def gif_2_def)
qed

text \<open>
  C5. The route means to give every persisted group an id of its own (``Generate a unique
  group ID for this generation session''), and the history and statistics routes tell
  sessions apart by that id. The id does not achieve this: it is the clock reading in
  milliseconds followed by nine characters of a random draw. Here the sample caller sends two
  different requests that reach the persistence step at the same clock reading and whose
  draws agree on the nine characters that are kept; each request persists one row, and both
  rows carry the same group id.
\<close>

theorem group_id_collision:
  "map d_inputText (persisted sample_env (snd (POST sample_env))) = [''my code finally compiled'']
   \<and> map d_generationGroupId (persisted sample_env (snd (POST sample_env)))
       = [''group_1764323044000_4fzyo82mv'']
   \<and> map d_inputText
        (persisted (sample_env\<lparr>request_json := Fulfilled (JsString ''ship it''),
                                math_random := ''0.4fzyo82mvzzz''\<rparr>)
           (snd (POST (sample_env\<lparr>request_json := Fulfilled (JsString ''ship it''),
                                   math_random := ''0.4fzyo82mvzzz''\<rparr>)))) = [''ship it'']
   \<and> map d_generationGroupId
        (persisted (sample_env\<lparr>request_json := Fulfilled (JsString ''ship it''),
                                math_random := ''0.4fzyo82mvzzz''\<rparr>)
           (snd (POST (sample_env\<lparr>request_json := Fulfilled (JsString ''ship it''),
                                   math_random := ''0.4fzyo82mvzzz''\<rparr>))))
       = [''group_1764323044000_4fzyo82mv'']"
proof -
  let ?b = "sample_env\<lparr>request_json := Fulfilled (JsString ''ship it''),
                        math_random := ''0.4fzyo82mvzzz''\<rparr>"
  let ?ta = "''my code finally compiled''"
  let ?tb = "''ship it''"
  let ?ss = "[strategy_e, strategy_l, strategy_s]"
  let ?sels = "[\<lparr> sel_strategy = strategy_e, selectedGif = Some gif_2,
        sel_reasoning = ''matches the mood'', sel_error = False \<rparr>]"
  have u: "''user_1'' \<noteq> []" and ne: "?sels \<noteq> []" and na: "?ta \<noteq> []" and nb: "?tb \<noteq> []"
    by simp_all
  have ga: "gate sample_env (Some ''user_1'')
       = ([RateLimit ''user_1'', CurrentUser, UpsertUser ''user_1'' None],
          Inr (10, 1764409443000, 2))"
    and gb: "gate ?b (Some ''user_1'')
       = ([RateLimit ''user_1'', CurrentUser, UpsertUser ''user_1'' None],
          Inr (10, 1764409443000, 2))"
    by (rule sample_gate_of; simp)+
  have ka: "truthy (GIPHY_API_KEY sample_env)" and kb: "truthy (GIPHY_API_KEY ?b)"
    by (simp_all add: sample_env_def truthy_def)
  have sa: "successful (selections_of sample_env ?ta ?ss) = ?sels"
    and sb: "successful (selections_of ?b ?tb ?ss) = ?sels"
    by (simp_all add: sample_successful)
  have ra: "generation_rows sample_env ''db_1'' ?ta ?sels = [\<lparr> d_userId = ''db_1'', d_inputText = ?ta, d_keywords = [''relieved''], d_topic = None,
               d_reasoning = ''matches the mood'',
               d_gifUrl = ''https://media.giphy.com/media/2/giphy.gif'', d_gifTitle = ''Finally'',
               d_perspective = ''emotional'',
               d_generationGroupId = ''group_1764323044000_4fzyo82mv'' \<rparr>]"
    by (rule sample_rows) simp_all
  have rb: "generation_rows ?b ''db_1'' ?tb ?sels = [\<lparr> d_userId = ''db_1'', d_inputText = ?tb, d_keywords = [''relieved''], d_topic = None,
               d_reasoning = ''matches the mood'',
               d_gifUrl = ''https://media.giphy.com/media/2/giphy.gif'', d_gifTitle = ''Finally'',
               d_perspective = ''emotional'',
               d_generationGroupId = ''group_1764323044000_4fzyo82mv'' \<rparr>]"
    by (rule sample_rows) (simp_all add: sample_env_def substr_2_9_def)
  have pa: "persisted sample_env (snd (POST sample_env)) =
      filter (\<lambda>d. generation_create sample_env d = Fulfilled ())
        (generation_rows sample_env ''db_1'' ?ta ?sels)"
    by (rule POST_writes(2) [OF _ u ga _ na _ sample_schema ka sa ne _ refl])
       (simp_all add: sample_env_def)
  have pb: "persisted ?b (snd (POST ?b)) =
      filter (\<lambda>d. generation_create ?b d = Fulfilled ())
        (generation_rows ?b ''db_1'' ?tb ?sels)"
    by (rule POST_writes(2) [OF _ u gb _ nb _ sample_schema kb sb ne _ refl])
       (simp_all add: sample_env_def)
  have fa: "generation_create sample_env = (\<lambda>_. Fulfilled ())"
    and fb: "generation_create ?b = (\<lambda>_. Fulfilled ())"
    by (simp_all add: sample_env_def)
  show ?thesis
    unfolding pa pb ra rb fa fb by simp
qed

subsection \<open>Order of the results\<close>

lemma promises_without_rejection:
  "Rejected \<notin> set ps \<Longrightarrow> ps = map Fulfilled (fulfilled_values ps)"
proof (induction ps)
  case Nil
  then show ?case by (simp add: fulfilled_values_def List.map_filter_simps)
next
  case (Cons p ps)
  then show ?case
    by (cases p) (simp_all add: fulfilled_values_def List.map_filter_simps)
qed

lemma await_all_eq:
  "await_all t ps =
     (if Rejected \<in> set ps then respond failed else continue (fulfilled_values ps))"
proof (cases "Rejected \<in> set ps")
  case True
  then show ?thesis by (simp add: await_all_rejected)
next
  case False
  from promises_without_rejection [OF this]
  have "await_all t ps = await_all t (map Fulfilled (fulfilled_values ps))" by simp
  with False show ?thesis by (simp only: await_all_fulfilled if_False)
qed

lemma gate_settle_indep:
  "gate (e\<lparr>search_settles_at := t1, select_settles_at := t2, create_settles_at := t3\<rparr>) userId
     = gate e userId"
  by (simp add: gate_def cong: if_cong)

lemma read_text_settle_indep:
  "read_text (e\<lparr>search_settles_at := t1, select_settles_at := t2, create_settles_at := t3\<rparr>)
     = read_text e"
  by (simp add: read_text_def)

lemma derive_settle_indep:
  "derive (e\<lparr>search_settles_at := t1, select_settles_at := t2, create_settles_at := t3\<rparr>) t
     = derive e t"
  by (simp add: derive_def cong: if_cong)

lemma search_one_settle_indep:
  "search_one (e\<lparr>search_settles_at := t1, select_settles_at := t2, create_settles_at := t3\<rparr>)
     = search_one e"
  by (rule ext) (simp add: search_one_def)

lemma select_one_settle_indep:
  "select_one (e\<lparr>search_settles_at := t1, select_settles_at := t2, create_settles_at := t3\<rparr>) t
     = select_one e t"
  by (rule ext) (simp add: select_one_def cong: if_cong)

lemma persist_settle_indep:
  "persist (e\<lparr>search_settles_at := t1, select_settles_at := t2, create_settles_at := t3\<rparr>)
       userId t sels
     = persist e userId t sels"
  by (simp add: persist_def await_all_eq Let_def cong: if_cong option.case_cong)

lemma pipeline_settle_indep:
  "pipeline (e\<lparr>search_settles_at := t1, select_settles_at := t2, create_settles_at := t3\<rparr>)
     = pipeline e"
  unfolding pipeline_def gate_settle_indep read_text_settle_indep derive_settle_indep
    search_all_eq select_all_eq search_one_settle_indep select_one_settle_indep
    persist_settle_indep
  by simp

lemma POST_settle_indep:
  "POST (e\<lparr>search_settles_at := t1, select_settles_at := t2, create_settles_at := t3\<rparr>)
     = POST e"
  by (simp only: POST_def pipeline_settle_indep)

lemma persist_only_fails:
  "snd (persist e userId t sels) = Inl r \<Longrightarrow> r = failed"
  by (auto simp: persist_def await_all_eq await_def andThen_def continue_def respond_def
      started_def Let_def split: if_splits settled.splits option.splits sum.splits)

lemma results_by_branch:
  assumes "auth e = Fulfilled userId"
    and "gate e userId = (gcalls, Inr lim)"
    and "request_json e = Fulfilled (JsString text)" and "text \<noteq> []"
    and "deriveStrategies e text = Fulfilled strategies" and "strategiesSchema strategies"
    and "truthy (GIPHY_API_KEY e)"
    and "fst (POST e) = Ok200 body"
  shows "body = response_data userId lim (successful (selections_of e text strategies))"
    and "map r_perspective (results body) =
           map perspective (filter (\<lambda>s. sr_gifs (search_one e s) \<noteq> []) strategies)"
proof -
  let ?sels = "successful (selections_of e text strategies)"
  have ne: "length ?sels \<noteq> 0"
  proof
    assume "length ?sels = 0"
    from POST_nothing_found [OF assms(1-7) this] assms(8) show False by simp
  qed
  obtain pcalls res where p: "persist e userId text ?sels = (pcalls, res)"
    by (cases "persist e userId text ?sels")
  note post = POST_after_persist [OF assms(1-7) ne p]
  show body: "body = response_data userId lim ?sels"
  proof (cases res)
    case (Inl r)
    with p have "r = failed" using persist_only_fails [of e userId "text" ?sels r] by simp
    with post Inl assms(8) show ?thesis by (simp add: failed_def)
  next
    case (Inr u)
    with post assms(8) show ?thesis by (simp add: failed_def split: if_splits)
  qed
  have "\<forall>s \<in> set ?sels. selectedGif s \<noteq> None"
    using successful_have_gif by blast
  from results_perspectives [OF this]
  show "map r_perspective (results body) =
           map perspective (filter (\<lambda>s. sr_gifs (search_one e s) \<noteq> []) strategies)"
    unfolding body by (simp only: successful_perspectives)
qed

lemma perspective_ranks:
  "perspective_rank emotional = 0" "perspective_rank literal = 1" "perspective_rank sarcastic = 2"
  by (simp_all add: perspective_rank_def order_number_def perspective_order_def)

lemma every_search_finds:
  assumes "giphy e = (\<lambda>_. OkBody (Some [gif_1]))"
  shows "filter (\<lambda>s. sr_gifs (search_one e s) \<noteq> []) ss = ss"
  by (simp add: search_one_def assms)

lemma every_search_finds_POST:
  assumes "giphy e = (\<lambda>_. OkBody (Some [gif_1]))"
    and "auth e = Fulfilled (Some ''user_1'')"
    and "ratelimit_limit e = ratelimit_limit sample_env"
    and "currentUser e = currentUser sample_env" and "user_upsert e = user_upsert sample_env"
    and "request_json e = Fulfilled (JsString t)" and "t \<noteq> []"
    and "deriveStrategies e t = Fulfilled ss" and "strategiesSchema ss"
    and "truthy (GIPHY_API_KEY e)"
    and "user_findUnique e ''user_1'' = Fulfilled (Some ''db_1'')"
    and "generation_create e = (\<lambda>_. Fulfilled ())"
  shows "fst (POST e) = Ok200 (response_data (Some ''user_1'') (10, 1764409443000, 2)
                                 (successful (selections_of e t ss)))"
proof -
  have g: "gate e (Some ''user_1'') =
     ([RateLimit ''user_1'', CurrentUser, UpsertUser ''user_1'' None], Inr (10, 1764409443000, 2))"
    by (rule sample_gate_of [OF assms(3,4,5)])
  have "length (map (\<lambda>s. perspective (sel_strategy s)) (successful (selections_of e t ss)))
          = length ss"
    unfolding successful_perspectives every_search_finds [OF assms(1)] by simp
  with assms(9) have ne: "successful (selections_of e t ss) \<noteq> []"
    by (auto simp: strategiesSchema_def)
  have u: "''user_1'' \<noteq> []" by simp
  from POST_writes(1) [OF assms(2) u g assms(6,7,8,9,10) refl ne assms(11) refl]
  show ?thesis by (auto simp: assms(12) date_in_range_def)
qed

text \<open>
  C4 as stated fails: the schema of the strategies fixes neither their order nor their
  perspectives. When the reasoning service answers with the strategies in the order
  literal, emotional, sarcastic and every search finds a candidate, the result list is in
  that order, with literal before emotional.
\<close>

theorem result_order_counterexample:
  "strategiesSchema [strategy_l, strategy_e, strategy_s]
   \<and> fst (POST (sample_env\<lparr>deriveStrategies := (\<lambda>_. Fulfilled [strategy_l, strategy_e, strategy_s]),
                            giphy := (\<lambda>_. OkBody (Some [gif_1]))\<rparr>))
       = Ok200 (response_data (Some ''user_1'') (10, 1764409443000, 2)
           (successful (selections_of
              (sample_env\<lparr>deriveStrategies := (\<lambda>_. Fulfilled [strategy_l, strategy_e, strategy_s]),
                          giphy := (\<lambda>_. OkBody (Some [gif_1]))\<rparr>)
              ''my code finally compiled'' [strategy_l, strategy_e, strategy_s])))
   \<and> map r_perspective (results (response_data (Some ''user_1'') (10, 1764409443000, 2)
           (successful (selections_of
              (sample_env\<lparr>deriveStrategies := (\<lambda>_. Fulfilled [strategy_l, strategy_e, strategy_s]),
                          giphy := (\<lambda>_. OkBody (Some [gif_1]))\<rparr>)
              ''my code finally compiled'' [strategy_l, strategy_e, strategy_s]))))
       = [literal, emotional, sarcastic]
   \<and> perspective_rank emotional < perspective_rank literal"
proof -
  let ?e = "sample_env\<lparr>deriveStrategies := (\<lambda>_. Fulfilled [strategy_l, strategy_e, strategy_s]),
                          giphy := (\<lambda>_. OkBody (Some [gif_1]))\<rparr>"
  let ?t = "''my code finally compiled''"
  let ?ss = "[strategy_l, strategy_e, strategy_s]"
  have schema: "strategiesSchema ?ss"
    by (simp add: strategiesSchema_def strategy_e_def strategy_l_def strategy_s_def)
  have gi: "giphy ?e = (\<lambda>_. OkBody (Some [gif_1]))" by simp
  have post: "fst (POST ?e) = Ok200 (response_data (Some ''user_1'') (10, 1764409443000, 2)
                                 (successful (selections_of ?e ?t ?ss)))"
    by (rule every_search_finds_POST [OF gi _ _ _ _ _ _ _ schema])
       (simp_all add: sample_env_def truthy_def)
  have "\<forall>s \<in> set (successful (selections_of ?e ?t ?ss)). selectedGif s \<noteq> None"
    using successful_have_gif by blast
  from results_perspectives [OF this]
  have order: "map r_perspective (results (response_data (Some ''user_1'') (10, 1764409443000, 2)
           (successful (selections_of ?e ?t ?ss)))) = [literal, emotional, sarcastic]"
    unfolding successful_perspectives every_search_finds [OF gi]
    by (simp add: strategy_e_def strategy_l_def strategy_s_def)
  from schema post order show ?thesis
    by (simp add: perspective_ranks)
qed

text \<open>
  C4 (as the code has it). Whenever the handler returns a result set, the perspectives of the
  result list are those of the strategies whose search found a candidate, in the order in
  which the reasoning service returned the strategies. The instants at which the concurrent
  searches, selections and writes settle have no influence on the response or on the calls.
  When the strategies come in the order of the ranks emotional, literal, sarcastic, the
  result list is in that order too.
\<close>

theorem results_follow_strategy_order:
  assumes "auth e = Fulfilled userId"
    and "gate e userId = (gcalls, Inr lim)"
    and "request_json e = Fulfilled (JsString text)" and "text \<noteq> []"
    and "deriveStrategies e text = Fulfilled strategies" and "strategiesSchema strategies"
    and "truthy (GIPHY_API_KEY e)"
    and "fst (POST e) = Ok200 body"
  shows "map r_perspective (results body) =
           map perspective (filter (\<lambda>s. sr_gifs (search_one e s) \<noteq> []) strategies)
       \<and> POST (e\<lparr>search_settles_at := t1, select_settles_at := t2, create_settles_at := t3\<rparr>)
           = POST e
       \<and> (sorted (map (\<lambda>s. perspective_rank (perspective s)) strategies) \<longrightarrow>
            sorted (map (\<lambda>r. perspective_rank (r_perspective r)) (results body)))"
proof -
  note byBranch = results_by_branch(2) [OF assms]
  have "sorted (map (\<lambda>r. perspective_rank (r_perspective r)) (results body))"
    if "sorted (map (\<lambda>s. perspective_rank (perspective s)) strategies)"
  proof -
    have "map (\<lambda>r. perspective_rank (r_perspective r)) (results body)
            = map perspective_rank (map r_perspective (results body))"
      by simp
    also have "\<dots> = map (\<lambda>s. perspective_rank (perspective s))
                       (filter (\<lambda>s. sr_gifs (search_one e s) \<noteq> []) strategies)"
      unfolding byBranch by simp
    finally show ?thesis
      using sorted_filter [OF that] by simp
  qed
  with byBranch POST_settle_indep [where e = e and ?t1.0 = t1 and ?t2.0 = t2 and ?t3.0 = t3]
  show ?thesis
    by blast
qed

theorem results_follow_strategy_order_witness:
  "strategiesSchema [strategy_e, strategy_l, strategy_s]
   \<and> truthy (GIPHY_API_KEY (sample_env\<lparr>giphy := (\<lambda>_. OkBody (Some [gif_1]))\<rparr>))
   \<and> fst (POST (sample_env\<lparr>giphy := (\<lambda>_. OkBody (Some [gif_1]))\<rparr>))
       = Ok200 (response_data (Some ''user_1'') (10, 1764409443000, 2)
           (successful (selections_of (sample_env\<lparr>giphy := (\<lambda>_. OkBody (Some [gif_1]))\<rparr>)
              ''my code finally compiled'' [strategy_e, strategy_l, strategy_s])))
   \<and> sorted (map (\<lambda>s. perspective_rank (perspective s)) [strategy_e, strategy_l, strategy_s])
   \<and> map r_perspective (results (response_data (Some ''user_1'') (10, 1764409443000, 2)
           (successful (selections_of (sample_env\<lparr>giphy := (\<lambda>_. OkBody (Some [gif_1]))\<rparr>)
              ''my code finally compiled'' [strategy_e, strategy_l, strategy_s]))))
       = [emotional, literal, sarcastic]
   \<and> POST (sample_env\<lparr>giphy := (\<lambda>_. OkBody (Some [gif_1])),
                       search_settles_at := (\<lambda>i. i), select_settles_at := (\<lambda>i. 7 - i),
                       create_settles_at := (\<lambda>i. 0)\<rparr>)
       = POST (sample_env\<lparr>giphy := (\<lambda>_. OkBody (Some [gif_1]))\<rparr>)"
proof -
  let ?e = "sample_env\<lparr>giphy := (\<lambda>_. OkBody (Some [gif_1]))\<rparr>"
  let ?t = "''my code finally compiled''"
  let ?ss = "[strategy_e, strategy_l, strategy_s]"
  let ?body = "response_data (Some ''user_1'') (10, 1764409443000, 2)
                 (successful (selections_of ?e ?t ?ss))"
  have a: "auth ?e = Fulfilled (Some ''user_1'')" by (simp add: sample_env_def)
  have g: "gate ?e (Some ''user_1'')
       = ([RateLimit ''user_1'', CurrentUser, UpsertUser ''user_1'' None],
          Inr (10, 1764409443000, 2))"
    by (rule sample_gate_of) simp_all
  have j: "request_json ?e = Fulfilled (JsString ?t)" by (simp add: sample_env_def)
  have n: "?t \<noteq> []" by simp
  have d: "deriveStrategies ?e ?t = Fulfilled ?ss" by (simp add: sample_env_def)
  have k: "truthy (GIPHY_API_KEY ?e)" by (simp add: sample_env_def truthy_def)
  have gi: "giphy ?e = (\<lambda>_. OkBody (Some [gif_1]))" by simp
  have post: "fst (POST ?e) = Ok200 ?body"
    by (rule every_search_finds_POST [OF gi _ _ _ _ _ _ _ sample_schema])
       (simp_all add: sample_env_def truthy_def)
  have srt: "sorted (map (\<lambda>s. perspective_rank (perspective s)) ?ss)"
    by (simp add: strategy_e_def strategy_l_def strategy_s_def perspective_ranks)
  note t = results_follow_strategy_order [OF a g j n d sample_schema k post,
      where ?t1.0 = "\<lambda>i. i" and ?t2.0 = "\<lambda>i. 7 - i" and ?t3.0 = "\<lambda>i. 0"]
  from t have "map r_perspective (results ?body) =
      map perspective (filter (\<lambda>s. sr_gifs (search_one ?e s) \<noteq> []) ?ss)"
    by blast
  then have order: "map r_perspective (results ?body) = [emotional, literal, sarcastic]"
    unfolding every_search_finds [OF gi]
    by (simp add: strategy_e_def strategy_l_def strategy_s_def)
  from t have indep: "POST (?e\<lparr>search_settles_at := (\<lambda>i. i), select_settles_at := (\<lambda>i. 7 - i),
                       create_settles_at := (\<lambda>i. 0)\<rparr>) = POST ?e"
    by blast
  from sample_schema k post srt order indep show ?thesis
    by (intro conjI)
qed

end
